theory Spec2Isabelle
  imports Main "HOL-Library.Word"
begin

section \<open>Data model of modulebase.c\<close>

text \<open>
  Pointers are addresses, modelled as natural numbers; the null pointer is address 0.
  A pointer to a message buffer or to a byte buffer is modelled by the buffer's contents,
  with \<open>None\<close> for the null pointer.
\<close>

abbreviation (input) NULL :: nat where
  "NULL \<equiv> 0"

type_synonym u_int32_t = "32 word"
type_synonym byte = "8 word"

text \<open>\<open>struct module_t\<close>: \<open>name\<close> is a \<open>char*\<close> (\<open>None\<close> when null), \<open>handle\<close> the
  address returned by \<open>dlopen\<close>.\<close>

record module_t =
  name :: "string option"
  priority :: int
  handle :: nat

text \<open>
  Modelled from the spec: \<open>module_fn_info_t\<close>, the entry type of a module's
  \<open>message_handlers\<close> table, is declared in dsme/modulebase.h, which is not among the
  sources. The loop of \<open>add_msghandlers\<close> reads its fields \<open>msg_type\<close>, \<open>msg_size\<close> and
  \<open>callback\<close>; the spec describes the table as entries
  \<open>{message_type, expected_size, callback}\<close> terminated by a null callback entry.
  A callback is the address of a handler function.
\<close>

record module_fn_info_t =
  msg_type :: u_int32_t
  msg_size :: nat
  callback :: nat

text \<open>\<open>msg_handler_info_t\<close>: the same three fields and the owning module's address.\<close>

record msg_handler_info_t = module_fn_info_t +
  owner :: nat

text \<open>\<open>struct endpoint_t\<close>: the addresses of a module and of a socket connection.\<close>

record endpoint_t =
  module :: nat
  conn :: nat

text \<open>
  Modelled from the spec: \<open>dsmemsg_generic_t\<close> is declared in dsme/messages.h, which is
  not among the sources. The code reads the header fields \<open>line_size_\<close> (here \<open>line_size_f\<close>, the spec's
  total size) and \<open>size_\<close> (here \<open>size_f\<close>, the spec's declared size) and obtains the type identifier
  through \<open>dsmemsg_id\<close>; the spec gives the header as a type identifier and two length
  fields, followed by a payload. The record holds the three header fields and, in
  \<open>trailer\<close>, the bytes that follow the header in the buffer the pointer refers to.
\<close>

record dsmemsg_generic_t =
  line_size_f :: u_int32_t
  size_f :: u_int32_t
  type_f :: u_int32_t
  trailer :: "byte list"

text \<open>Modelled from the spec: \<open>sizeof(dsmemsg_generic_t)\<close>, three 32-bit fields.\<close>

definition sizeof_dsmemsg_generic_t :: nat where
  "sizeof_dsmemsg_generic_t = 12"

text \<open>Modelled from the spec: \<open>dsmemsg_id\<close> (dsme/messages.h) reads the type identifier
  of a message from its fixed place in the header.\<close>

definition dsmemsg_id :: "dsmemsg_generic_t \<Rightarrow> u_int32_t" where
  "dsmemsg_id msg = type_f msg"

text \<open>\<open>queued_msg_t\<close>; the fields \<open>from\<close>, \<open>to\<close> and \<open>data\<close> of the source.\<close>

record queued_msg_t =
  from_ep :: endpoint_t
  to_module :: nat
  data :: dsmemsg_generic_t

section \<open>The environment of the core\<close>

text \<open>
  Modelled from the spec: the socket transport (\<open>dsmesock_broadcast_with_extra\<close>,
  \<open>dsmesock_send_with_extra\<close>) and the log sink (\<open>dsme_log\<close>) are external
  collaborators whose code is not among the sources. A call to one of them is recorded,
  with its arguments, in a history field of the state.
\<close>

datatype sock_call =
    Sock_broadcast_with_extra "dsmemsg_generic_t option" nat "byte list option"
  | Sock_send_with_extra nat "dsmemsg_generic_t option" nat "byte list option"

datatype log_level = LOG_CRIT | LOG_DEBUG

text \<open>
  What the code of a module does to the core when it runs (as \<open>module_init\<close>,
  \<open>module_fini\<close> or a message handler): it reads and changes state of its own, of type
  \<open>'w\<close>, and calls the functions that modulebase.c exports for sending messages. All of
  them return \<open>void\<close>, so one run is the list of its calls, in order, together with the
  new state of the module code. Module code that registers handlers, loads or unloads
  modules or drains the queue from inside a callback is outside this model.
\<close>

datatype api_call =
    Call_broadcast_internally "dsmemsg_generic_t option"
  | Call_broadcast_internally_from_socket "dsmemsg_generic_t option" nat
  | Call_broadcast_with_extra "dsmemsg_generic_t option" nat "byte list option"
  | Call_broadcast "dsmemsg_generic_t option"
  | Call_endpoint_send_with_extra "endpoint_t option" "dsmemsg_generic_t option" nat
      "byte list option"
  | Call_endpoint_send "endpoint_t option" "dsmemsg_generic_t option"

text \<open>
  The dynamic linker and the loaded code: \<open>dl_open\<close> is \<open>dlopen\<close> on a path (NULL when
  it fails); \<open>sym_module_init\<close>, \<open>sym_module_fini\<close> and \<open>sym_message_handlers\<close>
  are \<open>dlsym\<close> on a handle for the three names (\<open>None\<close> when the symbol is missing);
  \<open>code_at\<close> is the handler function found at an address. A handler table is the list
  of the array's entries; the loop over it stops at the first entry whose callback is
  null, and a list without such an entry stands for an array whose terminating entry
  follows the listed ones.
\<close>

record 'w loader =
  dl_open :: "string \<Rightarrow> nat"
  sym_module_init :: "nat \<Rightarrow> (nat \<Rightarrow> 'w \<Rightarrow> api_call list \<times> 'w) option"
  sym_module_fini :: "nat \<Rightarrow> ('w \<Rightarrow> api_call list \<times> 'w) option"
  sym_message_handlers :: "nat \<Rightarrow> module_fn_info_t list option"
  code_at :: "nat \<Rightarrow> endpoint_t \<Rightarrow> dsmemsg_generic_t \<Rightarrow> 'w \<Rightarrow> api_call list \<times> 'w"

section \<open>The state\<close>

text \<open>
  The three global lists and \<open>currently_handling_module\<close> of the source, followed by
  the memory they refer to and by history fields.

  \<^item> \<open>module_mem\<close> is the memory holding \<open>module_t\<close> records, \<open>allocated\<close> the addresses
    of the records that are allocated and not freed, \<open>brk\<close> the last address handed
    out: \<open>malloc\<close> of a \<open>module_t\<close> returns the next address. Handler records and queued
    messages are never shared, so the lists hold them by value and freeing them leaves
    no trace in the state.
  \<^item> \<open>oom\<close> decides the coming \<open>malloc\<close> calls, one entry per call: \<open>True\<close> makes the
    call return null. When the list is used up, \<open>malloc\<close> succeeds.
  \<^item> \<open>opened\<close> lists the handles that \<open>dlopen\<close> returned and \<open>dlclose\<close> has not yet
    closed.
  \<^item> \<open>world\<close> is the state of the module code.
  \<^item> History: \<open>enqueued\<close> every envelope appended to the queue, \<open>dispatched\<close> every
    envelope passed to \<open>handle_message\<close> by the drain, \<open>invoked\<close> every handler
    callback invocation (the registration, the sender and the message), \<open>finalized\<close>
    every \<open>module_fini\<close> invocation (the module and the handler registry at that
    moment), \<open>sock\<close> the calls to the socket layer, \<open>logged\<close> the calls to the log.
\<close>

record 'w modulebase =
  modules :: "nat list"
  callbacks :: "msg_handler_info_t list"
  message_queue :: "queued_msg_t list"
  currently_handling_module :: nat
  module_mem :: "nat \<Rightarrow> module_t"
  allocated :: "nat list"
  brk :: nat
  oom :: "bool list"
  opened :: "nat list"
  world :: 'w
  enqueued :: "queued_msg_t list"
  dispatched :: "queued_msg_t list"
  invoked :: "(msg_handler_info_t \<times> endpoint_t \<times> dsmemsg_generic_t) list"
  finalized :: "(nat \<times> msg_handler_info_t list) list"
  sock :: "sock_call list"
  logged :: "(log_level \<times> string) list"

definition malloc :: "'w modulebase \<Rightarrow> bool \<times> 'w modulebase" where
  "malloc s = (case oom s of [] \<Rightarrow> (True, s) | b # bs \<Rightarrow> (\<not> b, s\<lparr>oom := bs\<rparr>))"

definition malloc_module_t :: "'w modulebase \<Rightarrow> nat \<times> 'w modulebase" where
  "malloc_module_t s =
     (case malloc s of
        (False, s1) \<Rightarrow> (NULL, s1)
      | (True, s1) \<Rightarrow>
          (Suc (brk s1), s1\<lparr>brk := Suc (brk s1), allocated := Suc (brk s1) # allocated s1\<rparr>))"

definition free_module_t :: "nat \<Rightarrow> 'w modulebase \<Rightarrow> 'w modulebase" where
  "free_module_t p s = s\<lparr>allocated := removeAll p (allocated s)\<rparr>"

definition dlopen :: "'w loader \<Rightarrow> string \<Rightarrow> 'w modulebase \<Rightarrow> nat \<times> 'w modulebase" where
  "dlopen env path s =
     (if dl_open env path = NULL then (NULL, s)
      else (dl_open env path, s\<lparr>opened := dl_open env path # opened s\<rparr>))"

definition dlclose :: "nat \<Rightarrow> 'w modulebase \<Rightarrow> 'w modulebase" where
  "dlclose h s = s\<lparr>opened := remove1 h (opened s)\<rparr>"

definition dsme_log :: "log_level \<Rightarrow> string \<Rightarrow> 'w modulebase \<Rightarrow> 'w modulebase" where
  "dsme_log level text s = s\<lparr>logged := logged s @ [(level, text)]\<rparr>"

definition dsmesock_broadcast_with_extra ::
  "dsmemsg_generic_t option \<Rightarrow> nat \<Rightarrow> byte list option \<Rightarrow> 'w modulebase \<Rightarrow> 'w modulebase" where
  "dsmesock_broadcast_with_extra msg extra_size extra s =
     s\<lparr>sock := sock s @ [Sock_broadcast_with_extra msg extra_size extra]\<rparr>"

definition dsmesock_send_with_extra ::
  "nat \<Rightarrow> dsmemsg_generic_t option \<Rightarrow> nat \<Rightarrow> byte list option \<Rightarrow> 'w modulebase
     \<Rightarrow> 'w modulebase" where
  "dsmesock_send_with_extra c msg extra_size extra s =
     s\<lparr>sock := sock s @ [Sock_send_with_extra c msg extra_size extra]\<rparr>"

section \<open>The GLib list functions the code calls\<close>

text \<open>
  A \<open>GSList*\<close> is a list; the null pointer is the empty list, and a pointer to a link
  inside a list is the suffix of the list that starts at that link. The functions follow
  GLib's gslist.c.
\<close>

definition g_slist_append :: "'a list \<Rightarrow> 'a \<Rightarrow> 'a list" where
  "g_slist_append list d = list @ [d]"

text \<open>\<open>g_slist_find\<close>: the first link whose data is the given one, null when none.\<close>

fun g_slist_find :: "'a list \<Rightarrow> 'a \<Rightarrow> 'a list" where
  "g_slist_find [] d = []"
| "g_slist_find (x # xs) d = (if x = d then x # xs else g_slist_find xs d)"

text \<open>\<open>g_slist_find_custom\<close>: the first link on which the comparison returns 0.\<close>

fun g_slist_find_custom :: "'a list \<Rightarrow> 'b \<Rightarrow> ('a \<Rightarrow> 'b \<Rightarrow> int) \<Rightarrow> 'a list" where
  "g_slist_find_custom [] d func = []"
| "g_slist_find_custom (x # xs) d func =
     (if func x d = 0 then x # xs else g_slist_find_custom xs d func)"

text \<open>\<open>g_slist_delete_link\<close>: the list without the link \<open>link\<close>.\<close>

definition g_slist_delete_link :: "'a list \<Rightarrow> 'a list \<Rightarrow> 'a list" where
  "g_slist_delete_link list link = take (length list - length link) list @ tl link"

text \<open>
  \<open>g_slist_insert_sorted_with_data\<close>: GLib walks the list while the comparison of the
  new element with the current one is greater than 0 and links the new element in front
  of the first element where it is not, or behind the last element.
\<close>

fun g_slist_insert_sorted_with_data ::
  "'a list \<Rightarrow> 'a \<Rightarrow> ('a \<Rightarrow> 'a \<Rightarrow> 'u \<Rightarrow> int) \<Rightarrow> 'u \<Rightarrow> 'a list" where
  "g_slist_insert_sorted_with_data [] d func user_data = [d]"
| "g_slist_insert_sorted_with_data (x # xs) d func user_data =
     (if func d x user_data > 0 then x # g_slist_insert_sorted_with_data xs d func user_data
      else d # x # xs)"

section \<open>The handler registry\<close>

text \<open>\<open>msg_comparator\<close>: the difference of the two 32-bit type identifiers, returned as
  an \<open>int\<close>.\<close>

definition msg_comparator :: "msg_handler_info_t \<Rightarrow> u_int32_t \<Rightarrow> int" where
  "msg_comparator handler mtype = sint (msg_type handler - mtype)"

text \<open>\<open>sort_comparator\<close>; it reads the priority of the two owners from memory.\<close>

definition sort_comparator ::
  "(nat \<Rightarrow> module_t) \<Rightarrow> msg_handler_info_t \<Rightarrow> msg_handler_info_t \<Rightarrow> nat \<Rightarrow> int" where
  "sort_comparator mem handler existing unused =
     (if msg_type handler > msg_type existing then 1
      else if msg_type handler < msg_type existing then 0
      else if priority (mem (owner handler)) > priority (mem (owner existing)) then 1 else 0)"

definition add_single_handler ::
  "u_int32_t \<Rightarrow> nat \<Rightarrow> nat \<Rightarrow> nat \<Rightarrow> 'w modulebase \<Rightarrow> int \<times> 'w modulebase" where
  "add_single_handler mtype msize cb own s =
     (case malloc s of
        (False, s1) \<Rightarrow> (- 1, s1)
      | (True, s1) \<Rightarrow>
          (0, s1\<lparr>callbacks :=
                 g_slist_insert_sorted_with_data (callbacks s1)
                   \<lparr>msg_type = mtype, msg_size = msize, callback = cb, owner = own\<rparr>
                   (sort_comparator (module_mem s1)) NULL\<rparr>))"

text \<open>The loop of \<open>add_msghandlers\<close> over the handler table.\<close>

fun add_msghandlers_loop ::
  "module_fn_info_t list \<Rightarrow> nat \<Rightarrow> 'w modulebase \<Rightarrow> int \<times> 'w modulebase" where
  "add_msghandlers_loop [] m s = (0, s)"
| "add_msghandlers_loop (e # es) m s =
     (if callback e = NULL then (0, s)
      else (case add_single_handler (msg_type e) (msg_size e) (callback e) m s of
              (r, s1) \<Rightarrow> if r \<noteq> 0 then (- 1, s1) else add_msghandlers_loop es m s1))"

definition add_msghandlers :: "'w loader \<Rightarrow> nat \<Rightarrow> 'w modulebase \<Rightarrow> int \<times> 'w modulebase" where
  "add_msghandlers env m s =
     (if m = NULL then (- 1, s)
      else (case sym_message_handlers env (handle (module_mem s m)) of
              None \<Rightarrow> (0, s)
            | Some table \<Rightarrow> add_msghandlers_loop table m s))"

text \<open>
  The loop of \<open>remove_msghandlers\<close>: \<open>node\<close> walks the list; a node whose owner is the
  module is deleted from \<open>callbacks\<close>, and the walk goes on at the node that followed it.
\<close>

fun remove_msghandlers_loop ::
  "nat \<Rightarrow> msg_handler_info_t list \<Rightarrow> msg_handler_info_t list \<Rightarrow> msg_handler_info_t list" where
  "remove_msghandlers_loop m [] cbs = cbs"
| "remove_msghandlers_loop m (h # next) cbs =
     remove_msghandlers_loop m next
       (if owner h = m then g_slist_delete_link cbs (h # next) else cbs)"

definition remove_msghandlers :: "nat \<Rightarrow> 'w modulebase \<Rightarrow> int \<times> 'w modulebase" where
  "remove_msghandlers m s =
     (0, s\<lparr>callbacks := remove_msghandlers_loop m (callbacks s) (callbacks s)\<rparr>)"

section \<open>Queueing messages\<close>

text \<open>
  \<open>queue_message\<close>. The copy holds the first \<open>line_size_\<close> bytes of the message (the
  header and \<open>line_size_ - sizeof(dsmemsg_generic_t)\<close> bytes behind it), then
  \<open>extra_size\<close> bytes of \<open>extra\<close>; then \<open>extra_size\<close> is added to the 32-bit field
  \<open>line_size_\<close> of the copy. The source reads that many bytes whatever the buffers
  hold; the model reads the bytes there are.
\<close>

definition queue_message ::
  "endpoint_t \<Rightarrow> nat \<Rightarrow> dsmemsg_generic_t option \<Rightarrow> nat \<Rightarrow> byte list option
     \<Rightarrow> 'w modulebase \<Rightarrow> 'w modulebase" where
  "queue_message sender to msg extra_size extra s =
     (case msg of
        None \<Rightarrow> s
      | Some genmsg \<Rightarrow>
          if unat (line_size_f genmsg) < sizeof_dsmemsg_generic_t then s
          else (case malloc s of
                  (False, s1) \<Rightarrow> s1
                | (True, s1) \<Rightarrow>
                    (case malloc s1 of
                       (False, s2) \<Rightarrow> s2
                     | (True, s2) \<Rightarrow>
                         (let copy = genmsg
                                \<lparr>trailer :=
                                   take (unat (line_size_f genmsg) - sizeof_dsmemsg_generic_t)
                                     (trailer genmsg)
                                   @ take extra_size (case extra of None \<Rightarrow> [] | Some e \<Rightarrow> e),
                                 line_size_f := line_size_f genmsg + of_nat extra_size\<rparr>;
                              newmsg = \<lparr>from_ep = sender, to_module = to, data = copy\<rparr>
                          in s2\<lparr>message_queue := g_slist_append (message_queue s2) newmsg,
                                enqueued := enqueued s2 @ [newmsg]\<rparr>))))"

text \<open>
  \<open>queue_message\<close> once more, on the memory that holds the message buffers, to follow
  what the function writes: \<open>msg\<close> is the address of the producer's message, \<open>mem\<close>
  the content of the buffers by address, and \<open>buf\<close> the address that the second
  \<open>malloc\<close> returns for \<open>newmsg->data\<close> when it succeeds. The two \<open>memcpy\<close> calls
  fill the buffer at \<open>buf\<close>, the addition to \<open>line_size_\<close> goes through
  \<open>newmsg->data\<close>, and the envelope owns that buffer; the queue holds its content.
  The result is the memory and the state after the call.
\<close>

definition queue_message_mem ::
  "endpoint_t \<Rightarrow> nat \<Rightarrow> nat \<Rightarrow> nat \<Rightarrow> byte list option \<Rightarrow> nat
     \<Rightarrow> (nat \<Rightarrow> dsmemsg_generic_t) \<Rightarrow> 'w modulebase
     \<Rightarrow> (nat \<Rightarrow> dsmemsg_generic_t) \<times> 'w modulebase" where
  "queue_message_mem sender to msg extra_size extra buf mem s =
     (if msg = NULL then (mem, s)
      else if unat (line_size_f (mem msg)) < sizeof_dsmemsg_generic_t then (mem, s)
      else (case malloc s of
              (False, s1) \<Rightarrow> (mem, s1)
            | (True, s1) \<Rightarrow>
                (case malloc s1 of
                   (False, s2) \<Rightarrow> (mem, s2)
                 | (True, s2) \<Rightarrow>
                     (let mem1 = mem(buf := (mem msg)
                                   \<lparr>trailer :=
                                      take (unat (line_size_f (mem msg)) - sizeof_dsmemsg_generic_t)
                                        (trailer (mem msg))
                                      @ take extra_size (case extra of None \<Rightarrow> [] | Some e \<Rightarrow> e)\<rparr>);
                          mem2 = mem1(buf := (mem1 buf)
                                   \<lparr>line_size_f := line_size_f (mem1 buf) + of_nat extra_size\<rparr>);
                          newmsg = \<lparr>from_ep = sender, to_module = to, data = mem2 buf\<rparr>
                      in (mem2,
                          s2\<lparr>message_queue := g_slist_append (message_queue s2) newmsg,
                             enqueued := enqueued s2 @ [newmsg]\<rparr>)))))"

definition broadcast_internally :: "dsmemsg_generic_t option \<Rightarrow> 'w modulebase \<Rightarrow> 'w modulebase" where
  "broadcast_internally msg s =
     queue_message \<lparr>module = currently_handling_module s, conn = NULL\<rparr> NULL msg 0 None s"

definition broadcast_internally_from_socket ::
  "dsmemsg_generic_t option \<Rightarrow> nat \<Rightarrow> 'w modulebase \<Rightarrow> 'w modulebase" where
  "broadcast_internally_from_socket msg c s =
     queue_message \<lparr>module = NULL, conn = c\<rparr> NULL msg 0 None s"

definition broadcast_with_extra ::
  "dsmemsg_generic_t option \<Rightarrow> nat \<Rightarrow> byte list option \<Rightarrow> 'w modulebase \<Rightarrow> 'w modulebase" where
  "broadcast_with_extra msg extra_size extra s =
     dsmesock_broadcast_with_extra msg extra_size extra
       (queue_message \<lparr>module = currently_handling_module s, conn = NULL\<rparr> NULL
          msg extra_size extra s)"

definition broadcast :: "dsmemsg_generic_t option \<Rightarrow> 'w modulebase \<Rightarrow> 'w modulebase" where
  "broadcast msg s = broadcast_with_extra msg 0 None s"

definition queue_for_module_with_extra ::
  "nat \<Rightarrow> dsmemsg_generic_t option \<Rightarrow> nat \<Rightarrow> byte list option \<Rightarrow> 'w modulebase
     \<Rightarrow> 'w modulebase" where
  "queue_for_module_with_extra recipient msg extra_size extra s =
     queue_message \<lparr>module = currently_handling_module s, conn = NULL\<rparr> recipient
       msg extra_size extra s"

definition endpoint_send_with_extra ::
  "endpoint_t option \<Rightarrow> dsmemsg_generic_t option \<Rightarrow> nat \<Rightarrow> byte list option \<Rightarrow> 'w modulebase
     \<Rightarrow> 'w modulebase" where
  "endpoint_send_with_extra recipient msg extra_size extra s =
     (case recipient of
        Some r \<Rightarrow>
          if module r \<noteq> NULL then queue_for_module_with_extra (module r) msg extra_size extra s
          else if conn r \<noteq> NULL then dsmesock_send_with_extra (conn r) msg extra_size extra s
          else dsme_log LOG_DEBUG ''endpoint_send(): no endpoint'' s
      | None \<Rightarrow> dsme_log LOG_DEBUG ''endpoint_send(): null endpoint'' s)"

definition endpoint_send ::
  "endpoint_t option \<Rightarrow> dsmemsg_generic_t option \<Rightarrow> 'w modulebase \<Rightarrow> 'w modulebase" where
  "endpoint_send recipient msg s = endpoint_send_with_extra recipient msg 0 None s"

text \<open>\<open>endpoint_same\<close>; either pointer may be null.\<close>

definition endpoint_same :: "endpoint_t option \<Rightarrow> endpoint_t option \<Rightarrow> bool" where
  "endpoint_same a b =
     (case (a, b) of
        (Some ea, Some eb) \<Rightarrow>
          (module ea \<noteq> NULL \<and> module ea = module eb) \<or> (conn ea \<noteq> NULL \<and> conn ea = conn eb)
      | _ \<Rightarrow> False)"

text \<open>Running the calls that a piece of module code makes, in order.\<close>

fun api :: "api_call \<Rightarrow> 'w modulebase \<Rightarrow> 'w modulebase" where
  "api (Call_broadcast_internally msg) s = broadcast_internally msg s"
| "api (Call_broadcast_internally_from_socket msg c) s = broadcast_internally_from_socket msg c s"
| "api (Call_broadcast_with_extra msg extra_size extra) s =
     broadcast_with_extra msg extra_size extra s"
| "api (Call_broadcast msg) s = broadcast msg s"
| "api (Call_endpoint_send_with_extra recipient msg extra_size extra) s =
     endpoint_send_with_extra recipient msg extra_size extra s"
| "api (Call_endpoint_send recipient msg) s = endpoint_send recipient msg s"

fun run_calls :: "api_call list \<Rightarrow> 'w modulebase \<Rightarrow> 'w modulebase" where
  "run_calls [] s = s"
| "run_calls (c # cs) s = run_calls cs (api c s)"

section \<open>Dispatch and drain\<close>

text \<open>
  The invocation \<open>handler->callback(from, msg)\<close> between the two assignments to
  \<open>currently_handling_module\<close>: the handler code found at the callback's address runs
  on the sender and the message, and its calls are carried out.
\<close>

definition call_handler ::
  "'w loader \<Rightarrow> msg_handler_info_t \<Rightarrow> endpoint_t \<Rightarrow> dsmemsg_generic_t \<Rightarrow> 'w modulebase
     \<Rightarrow> 'w modulebase" where
  "call_handler env handler sender msg s =
     (let s1 = s\<lparr>currently_handling_module := owner handler,
                 invoked := invoked s @ [(handler, sender, msg)]\<rparr>;
          (calls, w) = code_at env (callback handler) sender msg (world s1);
          s2 = run_calls calls (s1\<lparr>world := w\<rparr>)
      in s2\<lparr>currently_handling_module := NULL\<rparr>)"

text \<open>The loop of \<open>handle_message\<close>, started at \<open>node\<close>.\<close>

function handle_message_from ::
  "'w loader \<Rightarrow> endpoint_t \<Rightarrow> nat \<Rightarrow> dsmemsg_generic_t \<Rightarrow> msg_handler_info_t list
     \<Rightarrow> 'w modulebase \<Rightarrow> 'w modulebase" where
  "handle_message_from env sender to msg node s =
     (case g_slist_find_custom node (dsmemsg_id msg) msg_comparator of
        [] \<Rightarrow> s
      | handler # next \<Rightarrow>
          handle_message_from env sender to msg next
            (if callback handler \<noteq> NULL then
               if to = NULL \<or> to = owner handler then
                 if msg_size handler \<le> unat (line_size_f msg)
                    \<and> unat (size_f msg) = msg_size handler
                 then call_handler env handler sender msg s
                 else s
               else s
             else s))"
  by pat_completeness auto
termination
proof (relation "measure (\<lambda>(env, sender, to, msg, node, s). length node)")
  show "wf (measure (\<lambda>(env :: 'w loader, sender :: endpoint_t, to :: nat,
                       msg :: dsmemsg_generic_t, node :: msg_handler_info_t list,
                       s :: 'w modulebase). length node))"
    by simp
next
  fix env :: "'w loader" and sender :: endpoint_t and to :: nat and msg :: dsmemsg_generic_t
    and node :: "msg_handler_info_t list" and s :: "'w modulebase"
    and handler :: msg_handler_info_t and "next" :: "msg_handler_info_t list"
  assume found: "g_slist_find_custom node (dsmemsg_id msg) msg_comparator = handler # next"
  have shorter: "g_slist_find_custom xs d f = y # ys \<Longrightarrow> length ys < length xs"
    for xs ys :: "msg_handler_info_t list" and d :: u_int32_t and f y
    by (induction xs) (auto split: if_splits)
  from shorter [OF found]
  show "((env, sender, to, msg, next,
          if callback handler \<noteq> NULL then
            if to = NULL \<or> to = owner handler then
              if msg_size handler \<le> unat (line_size_f msg)
                 \<and> unat (size_f msg) = msg_size handler
              then call_handler env handler sender msg s
              else s
            else s
          else s),
         (env, sender, to, msg, node, s))
        \<in> measure (\<lambda>(env, sender, to, msg, node, s). length node)"
    by simp
qed

definition handle_message ::
  "'w loader \<Rightarrow> endpoint_t \<Rightarrow> nat \<Rightarrow> dsmemsg_generic_t \<Rightarrow> 'w modulebase
     \<Rightarrow> int \<times> 'w modulebase" where
  "handle_message env sender to msg s =
     (0, handle_message_from env sender to msg (callbacks s) s)"

text \<open>
  \<open>process_message_queue\<close>. The loop runs as long as handlers keep the queue filled, so
  the result is an option: \<open>None\<close> when the call does not return.
\<close>

partial_function (option) process_message_queue ::
  "'w loader \<Rightarrow> 'w modulebase \<Rightarrow> 'w modulebase option" where
  "process_message_queue env s =
     (case message_queue s of
        [] \<Rightarrow> Some s
      | front # rest \<Rightarrow>
          process_message_queue env
            (snd (handle_message env (from_ep front) (to_module front) (data front)
               (s\<lparr>message_queue := g_slist_delete_link (message_queue s) (message_queue s),
                  dispatched := dispatched s @ [front]\<rparr>))))"

section \<open>Loading and unloading modules\<close>

text \<open>The call of \<open>module_fini\<close>, when \<open>dlsym\<close> finds it.\<close>

definition call_fini :: "'w loader \<Rightarrow> nat \<Rightarrow> 'w modulebase \<Rightarrow> 'w modulebase" where
  "call_fini env m s =
     (case sym_module_fini env (handle (module_mem s m)) of
        None \<Rightarrow> s
      | Some finifunc \<Rightarrow>
          (let (calls, w) = finifunc (world s)
           in run_calls calls
                (s\<lparr>world := w, finalized := finalized s @ [(m, callbacks s)]\<rparr>)))"

definition unload_module :: "'w loader \<Rightarrow> nat \<Rightarrow> 'w modulebase \<Rightarrow> int \<times> 'w modulebase" where
  "unload_module env m s =
     (let node = g_slist_find (modules s) m in
      if node = [] then (- 1, s)
      else
        (let s1 = snd (remove_msghandlers m s);
             s2 = (if handle (module_mem s1 m) \<noteq> NULL then
                     (let sf = (call_fini env m (s1\<lparr>currently_handling_module := m\<rparr>))
                                 \<lparr>currently_handling_module := NULL\<rparr>
                      in dlclose (handle (module_mem sf m)) sf)
                   else s1);
             s3 = (if name (module_mem s2 m) \<noteq> None then
                     s2\<lparr>module_mem := (module_mem s2)(m := (module_mem s2 m)\<lparr>name := None\<rparr>)\<rparr>
                   else s2);
             s4 = (if m \<noteq> NULL then free_module_t m s3 else s3)
         in (0, s4\<lparr>modules := g_slist_delete_link (modules s4) node\<rparr>)))"

text \<open>The call of \<open>module_init\<close>, when \<open>dlsym\<close> finds it.\<close>

definition call_init :: "'w loader \<Rightarrow> nat \<Rightarrow> nat \<Rightarrow> 'w modulebase \<Rightarrow> 'w modulebase" where
  "call_init env m dlhandle s =
     (case sym_module_init env dlhandle of
        None \<Rightarrow> s
      | Some initfunc \<Rightarrow>
          (let s1 = s\<lparr>currently_handling_module := m\<rparr>;
               (calls, w) = initfunc m (world s1)
           in (run_calls calls (s1\<lparr>world := w\<rparr>))\<lparr>currently_handling_module := NULL\<rparr>))"

text \<open>The code of \<open>load_module\<close> behind the label \<open>error\<close>.\<close>

definition load_module_error :: "nat \<Rightarrow> nat \<Rightarrow> 'w modulebase \<Rightarrow> nat \<times> 'w modulebase" where
  "load_module_error m dlhandle s =
     (let s1 = dsme_log LOG_CRIT ''%s'' s;
          s2 = (if m \<noteq> NULL then free_module_t m (snd (remove_msghandlers m s1)) else s1);
          s3 = (if dlhandle \<noteq> NULL then dlclose dlhandle s2 else s2)
      in (NULL, s3))"

text \<open>
  \<open>load_module\<close> in two parts. \<open>load_module_prepare\<close> is the function up to and including
  the call of \<open>module_init\<close>: it gives \<open>Inl\<close> of what \<open>load_module\<close> returns when the
  load has failed by then, and otherwise \<open>Inr\<close> of the module, the handle and the state
  reached. \<open>load_module_register\<close> is the rest: registering the handlers, and appending the
  module to the list or going to \<open>error\<close>.
\<close>

definition load_module_prepare ::
  "'w loader \<Rightarrow> string \<Rightarrow> int \<Rightarrow> 'w modulebase
     \<Rightarrow> (nat \<times> 'w modulebase) + (nat \<times> nat \<times> 'w modulebase)" where
  "load_module_prepare env filename prio s =
     (let (dlhandle0, s0) =
            (if (case filename of [] \<Rightarrow> True | c # _ \<Rightarrow> c \<noteq> CHR ''/'') then
               (case malloc s of
                  (False, sa) \<Rightarrow> (NULL, sa)
                | (True, sa) \<Rightarrow> dlopen env (''./'' @ filename) sa)
             else (NULL, s));
          (dlhandle, s1) = (if dlhandle0 = NULL then dlopen env filename s0 else (dlhandle0, s0))
      in if dlhandle = NULL then Inl (NULL, dsme_log LOG_CRIT ''%s'' s1)
         else
           (case malloc_module_t s1 of
              (m, s2) \<Rightarrow>
                if m = NULL then Inl (load_module_error m dlhandle s2)
                else
                  (let s3 = s2\<lparr>module_mem := (module_mem s2)
                                 (m := (module_mem s2 m)\<lparr>handle := dlhandle, priority := prio\<rparr>)\<rparr>
                   in case malloc s3 of
                        (False, s4) \<Rightarrow>
                          Inl (load_module_error m dlhandle
                                 (s4\<lparr>module_mem := (module_mem s4)
                                        (m := (module_mem s4 m)\<lparr>name := None\<rparr>)\<rparr>))
                      | (True, s4) \<Rightarrow>
                          Inr (m, dlhandle,
                               call_init env m dlhandle
                                 (s4\<lparr>module_mem := (module_mem s4)
                                        (m := (module_mem s4 m)\<lparr>name := Some filename\<rparr>)\<rparr>)))))"

definition load_module_register ::
  "'w loader \<Rightarrow> nat \<Rightarrow> nat \<Rightarrow> 'w modulebase \<Rightarrow> nat \<times> 'w modulebase" where
  "load_module_register env m dlhandle s =
     (case add_msghandlers env m s of
        (r, s1) \<Rightarrow>
          if r \<noteq> 0 then load_module_error m dlhandle s1
          else (m, s1\<lparr>modules := g_slist_append (modules s1) m\<rparr>))"

definition load_module ::
  "'w loader \<Rightarrow> string \<Rightarrow> int \<Rightarrow> 'w modulebase \<Rightarrow> nat \<times> 'w modulebase" where
  "load_module env filename prio s =
     (case load_module_prepare env filename prio s of
        Inl failed \<Rightarrow> failed
      | Inr (m, dlhandle, s1) \<Rightarrow> load_module_register env m dlhandle s1)"

text \<open>
  \<open>modulebase_shutdown\<close>: the \<open>while (modules)\<close> loop, then the last drain. \<open>None\<close>
  when the call does not return: a drain that does not return, or the read of
  \<open>modules->data\<close> through a null pointer.
\<close>

partial_function (option) modulebase_shutdown_loop ::
  "'w loader \<Rightarrow> 'w modulebase \<Rightarrow> 'w modulebase option" where
  "modulebase_shutdown_loop env s =
     (if modules s = [] then Some s
      else Option.bind (process_message_queue env s)
             (\<lambda>s1. case modules s1 of
                      [] \<Rightarrow> None
                    | m # _ \<Rightarrow> modulebase_shutdown_loop env (snd (unload_module env m s1))))"

definition modulebase_shutdown :: "'w loader \<Rightarrow> 'w modulebase \<Rightarrow> (int \<times> 'w modulebase) option" where
  "modulebase_shutdown env s =
     Option.bind (modulebase_shutdown_loop env s)
       (\<lambda>s1. map_option (\<lambda>s2. (0, s2)) (process_message_queue env s1))"

declare handle_message_from.simps [simp del]

section \<open>An example configuration\<close>

text \<open>The state at program start: the three lists are empty, no module is being handled.\<close>

definition empty_modulebase :: "'w \<Rightarrow> 'w modulebase" where
  "empty_modulebase w =
     \<lparr>modules = [], callbacks = [], message_queue = [], currently_handling_module = NULL,
      module_mem = (\<lambda>_. \<lparr>name = None, priority = 0, handle = NULL\<rparr>),
      allocated = [], brk = 0, oom = [], opened = [], world = w,
      enqueued = [], dispatched = [], invoked = [], finalized = [], sock = [], logged = []\<rparr>"

text \<open>
  Three loadable modules. a.so handles type 0x10 by broadcasting a message of type 0x20
  with three extra bytes, and broadcasts a message of type 0x20 from its \<open>module_fini\<close>;
  b.so handles the types 0x10 and 0x20; c.so has a table of two handlers. The state of
  the module code counts the handler invocations.
\<close>

definition demo_msg :: "u_int32_t \<Rightarrow> dsmemsg_generic_t" where
  "demo_msg t = \<lparr>line_size_f = 12, size_f = 12, type_f = t, trailer = []\<rparr>"

definition demo_table_end :: module_fn_info_t where
  "demo_table_end = \<lparr>msg_type = 0, msg_size = 0, callback = NULL\<rparr>"

definition demo_loader :: "nat loader" where
  "demo_loader =
     \<lparr>dl_open = (\<lambda>path. if path = ''./a.so'' then 100 else if path = ''./b.so'' then 200
                       else if path = ''./c.so'' then 300 else NULL),
      sym_module_init = (\<lambda>h. None),
      sym_module_fini =
        (\<lambda>h. if h = 100 then Some (\<lambda>w. ([Call_broadcast (Some (demo_msg 0x20))], w)) else None),
      sym_message_handlers =
        (\<lambda>h. if h = 100 then
                Some [\<lparr>msg_type = 0x10, msg_size = 12, callback = 1000\<rparr>, demo_table_end]
              else if h = 200 then
                Some [\<lparr>msg_type = 0x10, msg_size = 12, callback = 2000\<rparr>,
                      \<lparr>msg_type = 0x20, msg_size = 12, callback = 2001\<rparr>, demo_table_end]
              else if h = 300 then
                Some [\<lparr>msg_type = 0x30, msg_size = 12, callback = 3000\<rparr>,
                      \<lparr>msg_type = 0x31, msg_size = 12, callback = 3001\<rparr>, demo_table_end]
              else None),
      code_at =
        (\<lambda>f sender msg w.
           if f = 1000 then
             ([Call_broadcast_with_extra (Some (demo_msg 0x20)) 3 (Some [1, 2, 3])], Suc w)
           else ([], Suc w))\<rparr>"

text \<open>A message whose buffer is as long as its \<open>line_size_\<close> says, the largest value of
  the field.\<close>

definition huge_trailer :: "byte list" where
  "huge_trailer = replicate 4294967283 0"

definition huge_msg :: dsmemsg_generic_t where
  "huge_msg = \<lparr>line_size_f = 0xFFFFFFFF, size_f = 12, type_f = 0x20, trailer = huge_trailer\<rparr>"

text \<open>a.so loaded at priority 5, then b.so at priority 9.\<close>

definition demo_loaded :: "nat modulebase" where
  "demo_loaded =
     snd (load_module demo_loader ''b.so'' 9
            (snd (load_module demo_loader ''a.so'' 5 (empty_modulebase 0))))"

section \<open>Relations between the state before and after a step\<close>

text \<open>\<open>sends\<close>: what the exported sending functions may change. \<open>evolves\<close>: what running
  module code between two steps of the core may change. \<open>accounted\<close>: every envelope
  enqueued since the first state is dispatched or still queued in the second.\<close>

definition sends :: "'w modulebase \<Rightarrow> 'w modulebase \<Rightarrow> bool" where
  "sends s s' \<longleftrightarrow>
     (\<exists>new om sk lg.
        s' = s\<lparr>message_queue := message_queue s @ new, enqueued := enqueued s @ new,
               oom := om, sock := sock s @ sk, logged := logged s @ lg\<rparr>)"

definition evolves :: "'w modulebase \<Rightarrow> 'w modulebase \<Rightarrow> bool" where
  "evolves s s' \<longleftrightarrow>
     (\<exists>new om sk lg w c iv fz.
        s' = s\<lparr>message_queue := message_queue s @ new, enqueued := enqueued s @ new,
               oom := om, sock := sock s @ sk, logged := logged s @ lg,
               world := w, currently_handling_module := c,
               invoked := invoked s @ iv, finalized := finalized s @ fz\<rparr>)"

definition accounted :: "'w modulebase \<Rightarrow> 'w modulebase \<Rightarrow> bool" where
  "accounted s s' \<longleftrightarrow>
     (\<exists>new. enqueued s' = enqueued s @ new
        \<and> dispatched s' @ message_queue s' = dispatched s @ message_queue s @ new)"

text \<open>The test that \<open>handle_message\<close> makes on a handler before it calls the callback.\<close>

definition deliverable :: "nat \<Rightarrow> dsmemsg_generic_t \<Rightarrow> msg_handler_info_t \<Rightarrow> bool" where
  "deliverable to msg h \<longleftrightarrow>
     callback h \<noteq> NULL \<and> msg_type h = dsmemsg_id msg \<and> (to = NULL \<or> to = owner h)
     \<and> msg_size h \<le> unat (line_size_f msg) \<and> unat (size_f msg) = msg_size h"

text \<open>The order in which \<open>sort_comparator\<close> makes GLib keep the handler list: by
  \<open>msg_type\<close>, and for equal \<open>msg_type\<close> by the owner's priority, smaller first.\<close>

definition handler_le :: "(nat \<Rightarrow> module_t) \<Rightarrow> msg_handler_info_t \<Rightarrow> msg_handler_info_t \<Rightarrow> bool" where
  "handler_le mem a b \<longleftrightarrow>
     msg_type a < msg_type b
     \<or> (msg_type a = msg_type b \<and> priority (mem (owner a)) \<le> priority (mem (owner b)))"

section \<open>Properties\<close>

subsection \<open>Evaluating the example\<close>

lemmas demo_defs = empty_modulebase_def demo_msg_def demo_table_end_def demo_loader_def

lemmas load_defs = load_module_def load_module_prepare_def load_module_register_def
  load_module_error_def malloc_def malloc_module_t_def dlopen_def dlclose_def call_init_def
  add_msghandlers_def add_single_handler_def sort_comparator_def g_slist_append_def
  free_module_t_def remove_msghandlers_def dsme_log_def Let_def

lemmas run_defs = broadcast_def broadcast_with_extra_def queue_message_def malloc_def
  dsmesock_broadcast_with_extra_def g_slist_append_def sizeof_dsmemsg_generic_t_def
  handle_message_def call_handler_def msg_comparator_def dsmemsg_id_def g_slist_delete_link_def
  Let_def demo_msg_def demo_loader_def


lemma demo_loaded_eq:
  "demo_loaded =
     \<lparr>modules = [1, 2],
      callbacks = [\<lparr>msg_type = 0x10, msg_size = 12, callback = 1000, owner = 1\<rparr>,
                   \<lparr>msg_type = 0x10, msg_size = 12, callback = 2000, owner = 2\<rparr>,
                   \<lparr>msg_type = 0x20, msg_size = 12, callback = 2001, owner = 2\<rparr>],
      message_queue = [], currently_handling_module = NULL,
      module_mem = (\<lambda>_. \<lparr>name = None, priority = 0, handle = NULL\<rparr>)
        (Suc 0 := \<lparr>name = Some ''a.so'', priority = 5, handle = 100\<rparr>,
         Suc (Suc 0) := \<lparr>name = Some ''b.so'', priority = 9, handle = 200\<rparr>),
      allocated = [2, 1], brk = 2, oom = [], opened = [200, 100], world = 0,
      enqueued = [], dispatched = [], invoked = [], finalized = [], sock = [], logged = []\<rparr>"
  by (simp add: demo_loaded_def demo_defs load_defs)

subsection \<open>What sending and running module code leave unchanged\<close>

lemma snd_malloc: "snd (malloc s) = s\<lparr>oom := tl (oom s)\<rparr>"
  by (simp add: malloc_def split: list.splits)

lemma sendsI:
  "s' = s\<lparr>message_queue := message_queue s @ new, enqueued := enqueued s @ new,
          oom := om, sock := sock s @ sk, logged := logged s @ lg\<rparr> \<Longrightarrow> sends s s'"
  unfolding sends_def by blast

lemma sends_refl: "sends s s"
  by (rule sendsI [where new="[]" and om="oom s" and sk="[]" and lg="[]"]) simp

lemma sends_trans: "sends s s' \<Longrightarrow> sends s' s'' \<Longrightarrow> sends s s''"
  unfolding sends_def by (elim exE) (simp, blast)

lemma sends_oom: "sends s (s\<lparr>oom := om\<rparr>)"
  by (rule sendsI [where new="[]" and om=om and sk="[]" and lg="[]"]) simp

lemma queue_message_sends: "sends s (queue_message sender to msg n e s)"
proof -
  have a: "sends s (s\<lparr>oom := om, message_queue := message_queue s @ [q], enqueued := enqueued s @ [q]\<rparr>)" for om q
    by (rule sendsI [where new="[q]" and om=om and sk="[]" and lg="[]"]) simp
  show ?thesis
    by (simp add: queue_message_def case_prod_beta Let_def snd_malloc g_slist_append_def
        sends_refl sends_oom a split: option.splits bool.splits)
qed

lemma dsme_log_sends: "sends s (dsme_log l t s)"
  unfolding dsme_log_def by (rule sendsI [where new="[]" and om="oom s" and sk="[]" and lg="[(l, t)]"]) simp

lemma sock_bc_sends: "sends s (dsmesock_broadcast_with_extra msg n e s)"
  unfolding dsmesock_broadcast_with_extra_def
  by (rule sendsI [where new="[]" and om="oom s" and sk="[Sock_broadcast_with_extra msg n e]" and lg="[]"]) simp

lemma sock_send_sends: "sends s (dsmesock_send_with_extra c msg n e s)"
  unfolding dsmesock_send_with_extra_def
  by (rule sendsI [where new="[]" and om="oom s" and sk="[Sock_send_with_extra c msg n e]" and lg="[]"]) simp

lemma api_sends: "sends s (api c s)"
proof (cases c)
  case (Call_broadcast_with_extra msg n e)
  then show ?thesis
    by (simp add: broadcast_with_extra_def) (blast intro: sends_trans queue_message_sends sock_bc_sends)
next
  case (Call_broadcast msg)
  then show ?thesis
    by (simp add: broadcast_def broadcast_with_extra_def) (blast intro: sends_trans queue_message_sends sock_bc_sends)
qed (auto simp: broadcast_internally_def broadcast_internally_from_socket_def
      endpoint_send_def endpoint_send_with_extra_def queue_for_module_with_extra_def
      intro: queue_message_sends dsme_log_sends sock_send_sends split: option.splits)

lemma run_calls_sends: "sends s (run_calls cs s)"
  by (induction cs arbitrary: s) (auto intro: sends_refl sends_trans api_sends)

lemma evolvesI:
  "s' = s\<lparr>message_queue := message_queue s @ new, enqueued := enqueued s @ new,
               oom := om, sock := sock s @ sk, logged := logged s @ lg,
               world := w, currently_handling_module := c,
               invoked := invoked s @ iv, finalized := finalized s @ fz\<rparr> \<Longrightarrow> evolves s s'"
  unfolding evolves_def by blast

lemma evolves_refl: "evolves s s"
  by (rule evolvesI [where new="[]" and om="oom s" and sk="[]" and lg="[]" and w="world s" and c="currently_handling_module s" and iv="[]" and fz="[]"]) simp

lemma evolves_trans [trans]: "evolves s s' \<Longrightarrow> evolves s' s'' \<Longrightarrow> evolves s s''"
  unfolding evolves_def by (elim exE) (simp, blast)

lemma sends_evolves: "sends s s' \<Longrightarrow> evolves s s'"
  unfolding sends_def
  by (elim exE, rule_tac new=new and om=om and sk=sk and lg=lg and w="world s"
      and c="currently_handling_module s" and iv="[]" and fz="[]" in evolvesI) simp

lemma evolves_fields:
  assumes "evolves s s'"
  shows "callbacks s' = callbacks s" "modules s' = modules s" "module_mem s' = module_mem s"
    "allocated s' = allocated s" "brk s' = brk s" "opened s' = opened s"
    "dispatched s' = dispatched s"
  using assms unfolding evolves_def by auto

lemma sends_fields:
  assumes "sends s s'"
  shows "invoked s' = invoked s" "finalized s' = finalized s" "world s' = world s"
    "currently_handling_module s' = currently_handling_module s"
  using assms unfolding sends_def by auto

lemma queue_message_sock: "sock (queue_message sender to msg n e s) = sock s"
  by (simp add: queue_message_def case_prod_beta Let_def snd_malloc split: option.splits bool.splits)

lemma evolves_queue:
  assumes "evolves s s'"
  shows "\<exists>new. message_queue s' = message_queue s @ new \<and> enqueued s' = enqueued s @ new"
  using assms unfolding evolves_def by auto

lemma evolves_world: "evolves s (s\<lparr>world := w\<rparr>)"
  by (rule evolvesI [where new="[]" and om="oom s" and sk="[]" and lg="[]" and w=w
        and c="currently_handling_module s" and iv="[]" and fz="[]"]) simp

lemma evolves_chm: "evolves s (s\<lparr>currently_handling_module := c\<rparr>)"
  by (rule evolvesI [where new="[]" and om="oom s" and sk="[]" and lg="[]" and w="world s"
        and c=c and iv="[]" and fz="[]"]) simp

lemma evolves_invoked: "evolves s (s\<lparr>invoked := invoked s @ iv\<rparr>)"
  by (rule evolvesI [where new="[]" and om="oom s" and sk="[]" and lg="[]" and w="world s"
        and c="currently_handling_module s" and iv=iv and fz="[]"]) simp

lemma evolves_finalized: "evolves s (s\<lparr>finalized := finalized s @ fz\<rparr>)"
  by (rule evolvesI [where new="[]" and om="oom s" and sk="[]" and lg="[]" and w="world s"
        and c="currently_handling_module s" and iv="[]" and fz=fz]) simp

lemma call_handler_evolves: "evolves s (call_handler env h sender msg s)"
proof -
  let ?s1 = "s\<lparr>currently_handling_module := owner h, invoked := invoked s @ [(h, sender, msg)]\<rparr>"
  let ?r = "code_at env (callback h) sender msg (world ?s1)"
  let ?s2 = "run_calls (fst ?r) (?s1\<lparr>world := snd ?r\<rparr>)"
  have "evolves s ?s1"
    by (rule evolvesI [where new="[]" and om="oom s" and sk="[]" and lg="[]" and w="world s"
        and c="owner h" and iv="[(h, sender, msg)]" and fz="[]"]) simp
  also have "evolves ?s1 (?s1\<lparr>world := snd ?r\<rparr>)" by (rule evolves_world)
  also have "evolves (?s1\<lparr>world := snd ?r\<rparr>) ?s2" by (rule sends_evolves [OF run_calls_sends])
  also have "evolves ?s2 (?s2\<lparr>currently_handling_module := NULL\<rparr>)" by (rule evolves_chm)
  finally show ?thesis
    by (simp add: call_handler_def Let_def case_prod_beta)
qed

lemma call_handler_invoked:
  "invoked (call_handler env h sender msg s) = invoked s @ [(h, sender, msg)]"
  unfolding call_handler_def Let_def case_prod_beta
  by (simp add: sends_fields(1) [OF run_calls_sends])

lemma msg_comparator_0: "msg_comparator h d = 0 \<longleftrightarrow> msg_type h = d"
  by (simp add: msg_comparator_def signed_eq_0_iff)

lemma find_custom_dropWhile:
  "g_slist_find_custom node d msg_comparator = dropWhile (\<lambda>h. msg_type h \<noteq> d) node"
  by (induction node) (auto simp: msg_comparator_0)

lemma handle_message_from_evolves: "evolves s (handle_message_from env sender to msg node s)"
proof (induction env sender to msg node s rule: handle_message_from.induct)
  case (1 env sender to msg node s)
  show ?case
  proof (cases "g_slist_find_custom node (dsmemsg_id msg) msg_comparator")
    case Nil
    then show ?thesis by (subst handle_message_from.simps) (simp add: evolves_refl)
  next
    case (Cons handler nxt)
    let ?s1 = "if callback handler \<noteq> NULL then
               if to = NULL \<or> to = owner handler then
                 if msg_size handler \<le> unat (line_size_f msg)
                    \<and> unat (size_f msg) = msg_size handler
                 then call_handler env handler sender msg s
                 else s
               else s
             else s"
    have "evolves s ?s1" by (simp add: evolves_refl call_handler_evolves)
    also have "evolves ?s1 (handle_message_from env sender to msg nxt ?s1)"
      by (rule "1.IH" [OF Cons])
    finally show ?thesis using Cons by (subst handle_message_from.simps) simp
  qed
qed

lemma handle_message_from_invoked:
  "invoked (handle_message_from env sender to msg node s) =
     invoked s @ map (\<lambda>h. (h, sender, msg)) (filter (deliverable to msg) node)"
proof (induction env sender to msg node s rule: handle_message_from.induct)
  case (1 env sender to msg node s)
  let ?P = "\<lambda>h. msg_type h \<noteq> dsmemsg_id msg"
  have split: "node = takeWhile ?P node @ dropWhile ?P node" by simp
  have none: "filter (deliverable to msg) (takeWhile ?P node) = []"
    by (auto simp: filter_empty_conv deliverable_def dest: set_takeWhileD)
  have flt: "filter (deliverable to msg) node = filter (deliverable to msg) (dropWhile ?P node)"
    by (subst split, subst filter_append) (simp add: none)
  show ?case
  proof (cases "g_slist_find_custom node (dsmemsg_id msg) msg_comparator")
    case Nil
    then have dw: "dropWhile ?P node = []" by (simp only: find_custom_dropWhile)
    show ?thesis by (subst handle_message_from.simps) (simp add: Nil flt dw)
  next
    case (Cons handler nxt)
    let ?s1 = "if callback handler \<noteq> NULL then
               if to = NULL \<or> to = owner handler then
                 if msg_size handler \<le> unat (line_size_f msg)
                    \<and> unat (size_f msg) = msg_size handler
                 then call_handler env handler sender msg s
                 else s
               else s
             else s"
    from Cons have dw: "dropWhile ?P node = handler # nxt" by (simp only: find_custom_dropWhile)
    then have ty: "msg_type handler = dsmemsg_id msg"
      using hd_dropWhile [of ?P node] by auto
    have step: "handle_message_from env sender to msg node s
                  = handle_message_from env sender to msg nxt ?s1"
      by (subst handle_message_from.simps) (simp add: Cons)
    have here: "invoked ?s1 = invoked s @ map (\<lambda>h. (h, sender, msg)) (filter (deliverable to msg) [handler])"
      by (simp add: call_handler_invoked deliverable_def ty)
    show ?thesis
      unfolding step "1.IH" [OF Cons] here flt dw by simp
  qed
qed

lemma accounted_refl: "accounted s s"
  by (simp add: accounted_def)

lemma accounted_trans [trans]: "accounted s s' \<Longrightarrow> accounted s' s'' \<Longrightarrow> accounted s s''"
  unfolding accounted_def by (elim exE conjE) simp

lemma evolves_accounted: "evolves s s' \<Longrightarrow> accounted s s'"
  unfolding accounted_def
  using evolves_queue [of s s'] evolves_fields(7) [of s s'] by auto

lemma g_slist_delete_link_self: "g_slist_delete_link q q = tl q"
  by (simp add: g_slist_delete_link_def)

lemma drain_step:
  fixes env :: "'w loader" and s :: "'w modulebase"
  assumes "message_queue s = front # rest"
  defines "s1 \<equiv> snd (handle_message env (from_ep front) (to_module front) (data front)
               (s\<lparr>message_queue := g_slist_delete_link (message_queue s) (message_queue s),
                  dispatched := dispatched s @ [front]\<rparr>))"
  shows "accounted s s1" "modules s1 = modules s" "callbacks s1 = callbacks s"
    "module_mem s1 = module_mem s" "allocated s1 = allocated s" "opened s1 = opened s"
    "brk s1 = brk s"
proof -
  let ?s0 = "s\<lparr>message_queue := rest, dispatched := dispatched s @ [front]\<rparr>"
  have s1: "s1 = handle_message_from env (from_ep front) (to_module front) (data front) (callbacks s) ?s0"
    by (simp add: s1_def handle_message_def g_slist_delete_link_self assms(1))
  have ev: "evolves ?s0 s1" unfolding s1 by (rule handle_message_from_evolves)
  have "accounted s ?s0" by (simp add: accounted_def assms(1))
  then show "accounted s s1" using evolves_accounted [OF ev] by (rule accounted_trans)
  show "modules s1 = modules s" "callbacks s1 = callbacks s"
    "module_mem s1 = module_mem s" "allocated s1 = allocated s" "opened s1 = opened s"
    "brk s1 = brk s"
    using evolves_fields [OF ev] by simp_all
qed

lemma drain_result:
  assumes "process_message_queue env s = Some s'"
  shows "message_queue s' = [] \<and> accounted s s' \<and> modules s' = modules s
     \<and> callbacks s' = callbacks s \<and> module_mem s' = module_mem s
     \<and> allocated s' = allocated s \<and> opened s' = opened s \<and> brk s' = brk s"
proof -
  let ?P = "\<lambda>(env :: 'a loader) s s'. message_queue s' = [] \<and> accounted s s' \<and> modules s' = modules s
     \<and> callbacks s' = callbacks s \<and> module_mem s' = module_mem s
     \<and> allocated s' = allocated s \<and> opened s' = opened s \<and> brk s' = brk s"
  have "?P env s s'"
  proof (rule process_message_queue.raw_induct [where P = ?P, OF _ assms])
    fix drain :: "'a loader \<Rightarrow> 'a modulebase \<Rightarrow> 'a modulebase option" and env s s'
    assume IH: "\<And>env s y. drain env s = Some y \<Longrightarrow> ?P env s y"
      and body: "(case message_queue s of [] \<Rightarrow> Some s
        | front # rest \<Rightarrow>
          drain env
           (snd (handle_message env (from_ep front) (to_module front) (data front)
                  (s\<lparr>message_queue := g_slist_delete_link (message_queue s) (message_queue s),
                       dispatched := dispatched s @ [front]\<rparr>)))) = Some s'"
    show "?P env s s'"
    proof (cases "message_queue s")
      case Nil
      with body show ?thesis by (simp add: accounted_refl)
    next
      case (Cons front rest)
      let ?s1 = "snd (handle_message env (from_ep front) (to_module front) (data front)
               (s\<lparr>message_queue := g_slist_delete_link (message_queue s) (message_queue s),
                  dispatched := dispatched s @ [front]\<rparr>))"
      from body Cons have "drain env ?s1 = Some s'" by simp
      from IH [OF this] drain_step [OF Cons, of env]
      show ?thesis by (auto intro: accounted_trans)
    qed
  qed
  then show ?thesis .
qed

subsection \<open>Dispatch\<close>

text \<open>
  C2. \<open>handle_message\<close> invokes the callbacks of exactly those registered handlers that
  have a callback, whose \<open>msg_type\<close> is the message's type identifier, whose owner is the
  recipient unless the recipient is null (broadcast), whose \<open>msg_size\<close> is at most the
  message's \<open>line_size_\<close> (total size) and equal to the message's \<open>size_\<close> (declared size);
  it invokes them once each, in registry order, with the sender and the message. So a
  handler that has a callback is invoked if and only if the four conditions hold, and a
  message whose declared size differs from the handler's expected size is not delivered
  to it, whatever its total size.
\<close>

theorem handle_message_delivers_iff:
  "invoked (snd (handle_message env sender to msg s)) =
     invoked s @ map (\<lambda>h. (h, sender, msg))
       (filter (\<lambda>h. callback h \<noteq> NULL \<and> msg_type h = dsmemsg_id msg
                    \<and> (to = NULL \<or> to = owner h)
                    \<and> msg_size h \<le> unat (line_size_f msg)
                    \<and> unat (size_f msg) = msg_size h) (callbacks s))
   \<and> (\<forall>h \<in> set (callbacks s). callback h \<noteq> NULL \<longrightarrow>
         ((h, sender, msg) \<in> set (drop (length (invoked s))
                                      (invoked (snd (handle_message env sender to msg s))))
          \<longleftrightarrow> msg_type h = dsmemsg_id msg
              \<and> (to = NULL \<or> to = owner h)
              \<and> msg_size h \<le> unat (line_size_f msg)
              \<and> unat (size_f msg) = msg_size h))"
proof -
  have eq: "invoked (snd (handle_message env sender to msg s)) =
     invoked s @ map (\<lambda>h. (h, sender, msg)) (filter (deliverable to msg) (callbacks s))"
    using handle_message_from_invoked [of env sender to msg "callbacks s" s]
    by (simp add: handle_message_def)
  show ?thesis
    unfolding eq by (auto simp: deliverable_def [abs_def])
qed

theorem handle_message_delivers_iff_witness:
  "\<lparr>msg_type = 0x10, msg_size = 12, callback = 2000, owner = 2\<rparr> \<in> set (callbacks demo_loaded)
   \<and> callback \<lparr>msg_type = 0x10, msg_size = 12, callback = 2000, owner = 2\<rparr> \<noteq> NULL
   \<and> invoked (snd (handle_message demo_loader \<lparr>module = NULL, conn = 7\<rparr> 2
                   (demo_msg 0x10\<lparr>line_size_f := 15, trailer := [1, 2, 3]\<rparr>) demo_loaded))
       = [(\<lparr>msg_type = 0x10, msg_size = 12, callback = 2000, owner = 2\<rparr>,
           \<lparr>module = NULL, conn = 7\<rparr>,
           demo_msg 0x10\<lparr>line_size_f := 15, trailer := [1, 2, 3]\<rparr>)]
   \<and> (\<lparr>msg_type = 0x10, msg_size = 12, callback = 2000, owner = 2\<rparr>,
        \<lparr>module = NULL, conn = 7\<rparr>, demo_msg 0x10\<lparr>size_f := 11\<rparr>)
       \<notin> set (drop (length (invoked demo_loaded))
                (invoked (snd (handle_message demo_loader \<lparr>module = NULL, conn = 7\<rparr> NULL
                                 (demo_msg 0x10\<lparr>size_f := 11\<rparr>) demo_loaded))))"
  using handle_message_delivers_iff [of demo_loader "\<lparr>module = NULL, conn = 7\<rparr>" 2
      "demo_msg 0x10\<lparr>line_size_f := 15, trailer := [1, 2, 3]\<rparr>" demo_loaded]
    handle_message_delivers_iff [of demo_loader "\<lparr>module = NULL, conn = 7\<rparr>" NULL
      "demo_msg 0x10\<lparr>size_f := 11\<rparr>" demo_loaded]
  by (simp add: demo_loaded_eq demo_msg_def dsmemsg_id_def)

subsection \<open>Drain\<close>

text \<open>
  C3. When \<open>process_message_queue\<close> returns, the queue is empty, and the envelopes it has
  passed to \<open>handle_message\<close> are, in this order, the envelopes that were queued at the
  call and every envelope enqueued during the call, in the order of enqueueing: the
  envelopes that handlers enqueue during the drain, and those enqueued while these are
  handled, are dispatched before the same call returns. The loop takes the envelope at
  the head, unlinks it, dispatches it and goes on with the queue as the handlers left it.
\<close>

theorem process_message_queue_drains_cascades:
  "process_message_queue env s = Some s' \<Longrightarrow>
     message_queue s' = [] \<and>
     (\<exists>new. enqueued s' = enqueued s @ new
        \<and> dispatched s' = dispatched s @ message_queue s @ new)"
  using drain_result [of env s s'] by (auto simp: accounted_def)

theorem process_message_queue_drains_cascades_witness:
  "\<exists>s'. process_message_queue demo_loader (broadcast (Some (demo_msg 0x10)) demo_loaded) = Some s'
     \<and> message_queue s' = []
     \<and> map (\<lambda>q. (type_f (data q), trailer (data q))) (dispatched s')
         = [(0x10, []), (0x20, [1, 2, 3])]"
proof -
  have "\<exists>s'. process_message_queue demo_loader (broadcast (Some (demo_msg 0x10)) demo_loaded)
           = Some s'
         \<and> map (\<lambda>q. (type_f (data q), trailer (data q))) (dispatched s')
             = [(0x10, []), (0x20, [1, 2, 3])]"
    by (simp add: demo_loaded_eq run_defs process_message_queue.simps
          handle_message_from.simps)
  then obtain s' where both:
    "process_message_queue demo_loader (broadcast (Some (demo_msg 0x10)) demo_loaded) = Some s'
     \<and> map (\<lambda>q. (type_f (data q), trailer (data q))) (dispatched s')
         = [(0x10, []), (0x20, [1, 2, 3])]" ..
  then have ret:
    "process_message_queue demo_loader (broadcast (Some (demo_msg 0x10)) demo_loaded) = Some s'"
    and disp: "map (\<lambda>q. (type_f (data q), trailer (data q))) (dispatched s')
         = [(0x10, []), (0x20, [1, 2, 3])]"
    by simp_all
  from process_message_queue_drains_cascades [OF ret] ret disp show ?thesis by (intro exI [of _ s']) simp
qed

subsection \<open>Queueing\<close>

text \<open>
  C7. \<open>queue_message\<close> changes nothing when the message pointer is null or when the
  message's \<open>line_size_\<close> (its declared total size) is smaller than
  \<open>sizeof(dsmemsg_generic_t)\<close>: the state, with the queue and the record of enqueued
  envelopes, is as before, so no drain delivers such a message to a handler.
\<close>

theorem queue_message_rejects_malformed:
  "queue_message sender to None extra_size extra s = s
   \<and> (unat (line_size_f m) < sizeof_dsmemsg_generic_t \<longrightarrow>
        queue_message sender to (Some m) extra_size extra s = s
        \<and> process_message_queue env (queue_message sender to (Some m) extra_size extra s)
            = process_message_queue env s)"
  by (simp add: queue_message_def)

theorem queue_message_rejects_malformed_witness:
  "unat (line_size_f (demo_msg 0x10\<lparr>line_size_f := 11\<rparr>)) < sizeof_dsmemsg_generic_t
   \<and> queue_message \<lparr>module = 1, conn = NULL\<rparr> NULL (Some (demo_msg 0x10\<lparr>line_size_f := 11\<rparr>))
        3 (Some [1, 2, 3]) demo_loaded = demo_loaded"
  using queue_message_rejects_malformed [of "\<lparr>module = 1, conn = NULL\<rparr>" NULL 3
      "Some [1, 2, 3]" demo_loaded "demo_msg 0x10\<lparr>line_size_f := 11\<rparr>" demo_loader]
  by (simp add: demo_msg_def sizeof_dsmemsg_generic_t_def)

text \<open>
  C10. \<open>broadcast\<close> is \<open>broadcast_with_extra\<close> with no extra bytes: it queues the message
  as \<open>broadcast_internally\<close> does and then passes it to the socket layer's
  \<open>dsmesock_broadcast_with_extra\<close>, which is called once, with the message, size 0 and
  a null pointer.
\<close>

theorem broadcast_is_broadcast_with_extra:
  "broadcast msg s = broadcast_with_extra msg 0 None s
   \<and> broadcast msg s = dsmesock_broadcast_with_extra msg 0 None (broadcast_internally msg s)
   \<and> sock (broadcast msg s) = sock s @ [Sock_broadcast_with_extra msg 0 None]"
  by (simp add: broadcast_def broadcast_with_extra_def broadcast_internally_def
        dsmesock_broadcast_with_extra_def queue_message_sock)

subsection \<open>Endpoints\<close>

text \<open>
  C9, as stated, fails: \<open>endpoint_same\<close> of an endpoint with itself is false when the
  endpoint names neither a module nor a connection, as the sender of a message that
  \<open>broadcast_internally\<close> queues while no module is being handled.
\<close>

theorem endpoint_same_empty_counterexample:
  "\<not> endpoint_same (Some \<lparr>module = NULL, conn = NULL\<rparr>) (Some \<lparr>module = NULL, conn = NULL\<rparr>)"
  by (simp add: endpoint_same_def)

text \<open>
  C9, amended. \<open>endpoint_same\<close> of an endpoint with itself is true when the endpoint
  names a module or a connection; \<open>endpoint_same\<close> of a module endpoint and a connection
  endpoint is false, whatever the two addresses are.
\<close>

theorem endpoint_same_nonempty_reflexive:
  "(module e \<noteq> NULL \<or> conn e \<noteq> NULL \<longrightarrow> endpoint_same (Some e) (Some e))
   \<and> \<not> endpoint_same (Some \<lparr>module = m, conn = NULL\<rparr>) (Some \<lparr>module = NULL, conn = c\<rparr>)"
  by (auto simp: endpoint_same_def)

theorem endpoint_same_nonempty_reflexive_witness:
  "module \<lparr>module = 7, conn = NULL\<rparr> \<noteq> NULL
   \<and> endpoint_same (Some \<lparr>module = 7, conn = NULL\<rparr>) (Some \<lparr>module = 7, conn = NULL\<rparr>)
   \<and> \<not> endpoint_same (Some \<lparr>module = 7, conn = NULL\<rparr>) (Some \<lparr>module = NULL, conn = 7\<rparr>)"
  using endpoint_same_nonempty_reflexive [of "\<lparr>module = 7, conn = NULL\<rparr>" 7 7]
  by simp

subsection \<open>The order of the handler registry\<close>

lemma sort_comparator_pos:
  "sort_comparator mem d x u > 0 \<longleftrightarrow> \<not> handler_le mem d x"
  by (auto simp: sort_comparator_def handler_le_def)

lemma handler_le_total: "\<not> handler_le mem d x \<Longrightarrow> handler_le mem x d"
  by (auto simp: handler_le_def)

lemma handler_le_trans: "handler_le mem a b \<Longrightarrow> handler_le mem b c \<Longrightarrow> handler_le mem a c"
  by (auto simp: handler_le_def)

lemma insert_sorted_set:
  "set (g_slist_insert_sorted_with_data xs d f u) = insert d (set xs)"
  by (induction xs) auto

lemma insert_sorted_ascending:
  "sorted_wrt (handler_le mem) xs \<Longrightarrow>
     sorted_wrt (handler_le mem) (g_slist_insert_sorted_with_data xs d (sort_comparator mem) u)"
proof (induction xs)
  case Nil
  then show ?case by simp
next
  case (Cons x xs)
  show ?case
  proof (cases "sort_comparator mem d x u > 0")
    case True
    then have "handler_le mem x d" by (simp add: sort_comparator_pos handler_le_total)
    with Cons True show ?thesis by (auto simp: insert_sorted_set)
  next
    case False
    then have "handler_le mem d x" by (simp add: sort_comparator_pos)
    with Cons.prems False show ?thesis by (auto intro: handler_le_trans)
  qed
qed

lemma add_single_handler_ascending:
  "sorted_wrt (handler_le (module_mem s)) (callbacks s) \<Longrightarrow>
     sorted_wrt (handler_le (module_mem (snd (add_single_handler mtype msize cb own s))))
       (callbacks (snd (add_single_handler mtype msize cb own s)))"
  by (auto simp: add_single_handler_def case_prod_beta snd_malloc insert_sorted_ascending
      split: bool.splits)

text \<open>
  C1, evaluated where it fails. With a.so loaded at priority 5 and b.so at priority 9, the
  registry holds the handlers for type 0x10 before the handler for type 0x20, and among
  the handlers for type 0x10 the one owned by the module of priority 5 before the one
  owned by the module of priority 9; a broadcast of type 0x10 is delivered in that order,
  lower priority first. The comment on \<open>sort_comparator\<close> promises descending order for
  both; the function returns a positive number where the new handler is to go in front,
  and \<open>g_slist_insert_sorted_with_data\<close> moves an element with a positive comparison
  behind.
\<close>

theorem registry_order_ascending_at_example:
  "map (\<lambda>h. (msg_type h, priority (module_mem demo_loaded (owner h)))) (callbacks demo_loaded)
     = [(0x10, 5), (0x10, 9), (0x20, 9)]
   \<and> (\<exists>s'. process_message_queue demo_loader (broadcast (Some (demo_msg 0x10)) demo_loaded)
             = Some s'
          \<and> map (\<lambda>(h, sender, msg). (priority (module_mem s' (owner h)), type_f msg)) (invoked s')
              = [(5, 0x10), (9, 0x10), (9, 0x20)])"
  by (simp add: demo_loaded_eq run_defs process_message_queue.simps handle_message_from.simps)

subsection \<open>Unloading\<close>

lemma remove_msghandlers_loop_filter:
  "remove_msghandlers_loop m node (pre @ node) = pre @ filter (\<lambda>h. owner h \<noteq> m) node"
proof (induction node arbitrary: pre)
  case Nil
  then show ?case by simp
next
  case (Cons h nxt)
  show ?case
  proof (cases "owner h = m")
    case True
    have "g_slist_delete_link (pre @ h # nxt) (h # nxt) = pre @ nxt"
      by (simp add: g_slist_delete_link_def)
    with True Cons.IH [of pre] show ?thesis by simp
  next
    case False
    with Cons.IH [of "pre @ [h]"] show ?thesis by simp
  qed
qed

lemma remove_msghandlers_eq:
  "remove_msghandlers m s = (0, s\<lparr>callbacks := filter (\<lambda>h. owner h \<noteq> m) (callbacks s)\<rparr>)"
  using remove_msghandlers_loop_filter [of m "callbacks s" "[]"]
  by (simp add: remove_msghandlers_def)

lemma g_slist_find_Nil: "g_slist_find xs x = [] \<longleftrightarrow> x \<notin> set xs"
  by (induction xs) auto

lemma g_slist_find_delete:
  "x \<in> set xs \<Longrightarrow> g_slist_delete_link xs (g_slist_find xs x) = remove1 x xs"
proof (induction xs)
  case Nil
  then show ?case by simp
next
  case (Cons y ys)
  show ?case
  proof (cases "y = x")
    case True
    then show ?thesis by (simp add: g_slist_delete_link_def)
  next
    case False
    with Cons.prems have mem: "x \<in> set ys" by simp
    have len: "length (g_slist_find ys x) \<le> length ys"
      by (induction ys) auto
    from Cons.IH [OF mem] False len show ?thesis
      by (simp add: g_slist_delete_link_def Suc_diff_le)
  qed
qed

lemma call_fini_evolves: "evolves s (call_fini env m s)"
proof (cases "sym_module_fini env (handle (module_mem s m))")
  case None
  then show ?thesis by (simp add: call_fini_def evolves_refl)
next
  case (Some finifunc)
  let ?r = "finifunc (world s)"
  let ?s1 = "s\<lparr>world := snd ?r, finalized := finalized s @ [(m, callbacks s)]\<rparr>"
  have "evolves s ?s1"
    by (rule evolvesI [where new="[]" and om="oom s" and sk="[]" and lg="[]" and w="snd ?r"
        and c="currently_handling_module s" and iv="[]" and fz="[(m, callbacks s)]"]) simp
  also have "evolves ?s1 (run_calls (fst ?r) ?s1)" by (rule sends_evolves [OF run_calls_sends])
  finally show ?thesis using Some by (simp add: call_fini_def case_prod_beta)
qed

lemma call_fini_module_mem: "module_mem (call_fini env m s) = module_mem s"
  by (rule evolves_fields(3) [OF call_fini_evolves])

lemma call_fini_finalized:
  "finalized (call_fini env m s) =
     finalized s @ (if sym_module_fini env (handle (module_mem s m)) \<noteq> None
                    then [(m, callbacks s)] else [])"
  by (auto simp: call_fini_def case_prod_beta sends_fields(2) [OF run_calls_sends])

lemma call_fini_invoked: "invoked (call_fini env m s) = invoked s"
  by (auto simp: call_fini_def case_prod_beta sends_fields(1) [OF run_calls_sends] split: option.splits)

text \<open>The state of \<open>unload_module\<close> behind the finalisation block.\<close>

lemma unload_module_found:
  fixes env :: "'w loader" and s :: "'w modulebase"
  assumes "m \<in> set (modules s)"
  defines "s1 \<equiv> s\<lparr>callbacks := filter (\<lambda>h. owner h \<noteq> m) (callbacks s)\<rparr>"
  defines "s2 \<equiv> (if handle (module_mem s m) \<noteq> NULL then
                     dlclose (handle (module_mem s m))
                       ((call_fini env m (s1\<lparr>currently_handling_module := m\<rparr>))
                          \<lparr>currently_handling_module := NULL\<rparr>)
                   else s1)"
  shows "fst (unload_module env m s) = 0"
    and "modules (snd (unload_module env m s)) = remove1 m (modules s)"
    and "callbacks (snd (unload_module env m s)) = callbacks s2"
    and "finalized (snd (unload_module env m s)) = finalized s2"
    and "invoked (snd (unload_module env m s)) = invoked s2"
    and "message_queue (snd (unload_module env m s)) = message_queue s2"
    and "enqueued (snd (unload_module env m s)) = enqueued s2"
    and "dispatched (snd (unload_module env m s)) = dispatched s2"
    and "modules s2 = modules s"
    and "evolves (s1\<lparr>currently_handling_module := m\<rparr>) (call_fini env m (s1\<lparr>currently_handling_module := m\<rparr>))"
proof -
  have nf: "g_slist_find (modules s) m \<noteq> []" using assms(1) by (simp add: g_slist_find_Nil)
  have ev: "evolves (s1\<lparr>currently_handling_module := m\<rparr>) (call_fini env m (s1\<lparr>currently_handling_module := m\<rparr>))"
    by (rule call_fini_evolves)
  show "evolves (s1\<lparr>currently_handling_module := m\<rparr>) (call_fini env m (s1\<lparr>currently_handling_module := m\<rparr>))"
    by (rule ev)
  have mm: "module_mem s1 = module_mem s" by (simp add: s1_def)
  show m2: "modules s2 = modules s"
    using evolves_fields(2) [OF ev] by (simp add: s2_def s1_def dlclose_def)
  have un: "unload_module env m s =
     (let s3 = (if name (module_mem s2 m) \<noteq> None then
                     s2\<lparr>module_mem := (module_mem s2)(m := (module_mem s2 m)\<lparr>name := None\<rparr>)\<rparr>
                   else s2);
          s4 = (if m \<noteq> NULL then free_module_t m s3 else s3)
      in (0, s4\<lparr>modules := g_slist_delete_link (modules s4) (g_slist_find (modules s) m)\<rparr>))"
    using nf
    by (simp add: unload_module_def remove_msghandlers_eq Let_def s2_def s1_def
          call_fini_module_mem)
  show "fst (unload_module env m s) = 0" by (simp add: un Let_def)
  show "modules (snd (unload_module env m s)) = remove1 m (modules s)"
    using g_slist_find_delete [OF assms(1)] m2 by (auto simp: un Let_def free_module_t_def)
  show "callbacks (snd (unload_module env m s)) = callbacks s2"
    "finalized (snd (unload_module env m s)) = finalized s2"
    "invoked (snd (unload_module env m s)) = invoked s2"
    "message_queue (snd (unload_module env m s)) = message_queue s2"
    "enqueued (snd (unload_module env m s)) = enqueued s2"
    "dispatched (snd (unload_module env m s)) = dispatched s2"
    by (simp_all add: un Let_def free_module_t_def)
qed

text \<open>
  C6. \<open>unload_module\<close> of a module that is not in the module list returns -1 and leaves
  the state as it is. For a module in the list it returns 0; the handler registry loses
  the registrations owned by the module and keeps the others in their order; when
  \<open>module_fini\<close> is called, the registry is already without the module's registrations
  (the record of the call holds the registry of that moment); no handler is invoked
  during the call; and the first link holding the module is taken out of the module
  list, so that the module is no longer in a list without repetitions.
\<close>

theorem unload_module_removes_handlers_first:
  "(m \<notin> set (modules s) \<longrightarrow> unload_module env m s = (- 1, s))
   \<and> (m \<in> set (modules s) \<longrightarrow>
        fst (unload_module env m s) = 0
        \<and> callbacks (snd (unload_module env m s)) = filter (\<lambda>h. owner h \<noteq> m) (callbacks s)
        \<and> finalized (snd (unload_module env m s)) =
            finalized s @ (if handle (module_mem s m) \<noteq> NULL
                              \<and> sym_module_fini env (handle (module_mem s m)) \<noteq> None
                           then [(m, filter (\<lambda>h. owner h \<noteq> m) (callbacks s))] else [])
        \<and> invoked (snd (unload_module env m s)) = invoked s
        \<and> modules (snd (unload_module env m s)) = remove1 m (modules s)
        \<and> (distinct (modules s) \<longrightarrow> m \<notin> set (modules (snd (unload_module env m s)))))"
proof (intro conjI impI)
  assume "m \<notin> set (modules s)"
  then show "unload_module env m s = (- 1, s)"
    by (simp add: unload_module_def g_slist_find_Nil)
next
  assume mem: "m \<in> set (modules s)"
  note u = unload_module_found [OF mem, of env]
  let ?s1 = "s\<lparr>callbacks := filter (\<lambda>h. owner h \<noteq> m) (callbacks s)\<rparr>"
  show "fst (unload_module env m s) = 0" by (rule u(1))
  show md: "modules (snd (unload_module env m s)) = remove1 m (modules s)" by (rule u(2))
  show "callbacks (snd (unload_module env m s)) = filter (\<lambda>h. owner h \<noteq> m) (callbacks s)"
    unfolding u(3) using evolves_fields(1) [OF u(10)] by (simp add: dlclose_def)
  show "finalized (snd (unload_module env m s)) =
            finalized s @ (if handle (module_mem s m) \<noteq> NULL
                              \<and> sym_module_fini env (handle (module_mem s m)) \<noteq> None
                           then [(m, filter (\<lambda>h. owner h \<noteq> m) (callbacks s))] else [])"
    unfolding u(4) by (simp add: dlclose_def call_fini_finalized)
  show "invoked (snd (unload_module env m s)) = invoked s"
    unfolding u(5) by (simp add: dlclose_def call_fini_invoked)
  assume "distinct (modules s)"
  then show "m \<notin> set (modules (snd (unload_module env m s)))"
    unfolding md by simp
qed

theorem unload_module_removes_handlers_first_witness:
  "1 \<in> set (modules demo_loaded) \<and> distinct (modules demo_loaded)
   \<and> fst (unload_module demo_loader 1 demo_loaded) = 0
   \<and> map owner (callbacks (snd (unload_module demo_loader 1 demo_loaded))) = [2, 2]
   \<and> map (\<lambda>(m, cbs). (m, map owner cbs)) (finalized (snd (unload_module demo_loader 1 demo_loaded)))
       = [(1, [2, 2])]
   \<and> modules (snd (unload_module demo_loader 1 demo_loaded)) = [2]
   \<and> 5 \<notin> set (modules demo_loaded)
   \<and> unload_module demo_loader 5 demo_loaded = (- 1, demo_loaded)"
  using unload_module_removes_handlers_first [of 1 demo_loaded demo_loader] unload_module_removes_handlers_first [of 5 demo_loaded demo_loader]
  by (simp add: demo_loaded_eq demo_loader_def)

subsection \<open>Shutdown\<close>




lemma shutdown_unfold:
  "modulebase_shutdown env s =
     (if modules s = [] then map_option (\<lambda>s2. (0, s2)) (process_message_queue env s)
      else Option.bind (process_message_queue env s)
             (\<lambda>s1. modulebase_shutdown env (snd (unload_module env (hd (modules s)) s1))))"
proof (cases "modules s = []")
  case True
  then show ?thesis
    by (simp add: modulebase_shutdown_def modulebase_shutdown_loop.simps [of env s])
next
  case False
  show ?thesis
  proof (cases "process_message_queue env s")
    case None
    with False show ?thesis
      by (simp add: modulebase_shutdown_def modulebase_shutdown_loop.simps [of env s])
  next
    case (Some s1)
    from drain_result [OF Some] have "modules s1 = modules s" by simp
    with False Some show ?thesis
      by (simp add: modulebase_shutdown_def modulebase_shutdown_loop.simps [of env s]
            split: list.splits)
  qed
qed

text \<open>The loop of \<open>modulebase_shutdown\<close> ends by itself: the call returns when every
  drain returns.\<close>

lemma modulebase_shutdown_returns:
  assumes drains: "\<And>s. process_message_queue env s \<noteq> None"
  shows "modulebase_shutdown env s \<noteq> None"
proof (induction "length (modules s)" arbitrary: s)
  case 0
  then show ?case using drains [of s] by (subst shutdown_unfold) auto
next
  case (Suc n)
  then have ne: "modules s \<noteq> []" by auto
  from drains [of s] obtain s1 where d: "process_message_queue env s = Some s1" by auto
  from drain_result [OF d] have ms: "modules s1 = modules s" by simp
  with ne have mem: "hd (modules s) \<in> set (modules s1)" by simp
  have "modules (snd (unload_module env (hd (modules s)) s1)) = remove1 (hd (modules s)) (modules s1)"
    by (rule unload_module_found(2) [OF mem])
  with ms ne Suc.hyps(2) have "n = length (modules (snd (unload_module env (hd (modules s)) s1)))"
    by (cases "modules s") auto
  from Suc.hyps(1) [OF this] ne d show ?case by (subst shutdown_unfold) simp
qed



subsection \<open>The queued copy\<close>

text \<open>\<open>queue_message\<close> on the memory changes the state as \<open>queue_message\<close> on the
  message found at the address does.\<close>

lemma queue_message_mem_refines:
  "snd (queue_message_mem sender to msg n e buf mem s)
     = queue_message sender to (if msg = NULL then None else Some (mem msg)) n e s"
  by (simp add: queue_message_mem_def queue_message_def case_prod_beta Let_def
        split: bool.splits)

text \<open>
  C8, as stated, fails: the copy's \<open>line_size_\<close> is a 32-bit field, and the sum wraps
  around. A message with \<open>line_size_ = 0xFFFFFFFF\<close>, in a buffer of that many bytes,
  queued with three extra bytes while both allocations succeed, is appended with
  \<open>line_size_ = 2\<close>, not 4294967298.
\<close>

theorem queue_message_total_size_wraps_counterexample:
  "fst (malloc (empty_modulebase (0 :: nat)))
   \<and> fst (malloc (snd (malloc (empty_modulebase (0 :: nat)))))
   \<and> sizeof_dsmemsg_generic_t \<le> unat (line_size_f huge_msg)
   \<and> unat (line_size_f huge_msg) = sizeof_dsmemsg_generic_t + length (trailer huge_msg)
   \<and> length (message_queue (queue_message \<lparr>module = 1, conn = NULL\<rparr> NULL (Some huge_msg) 3
                (Some [1, 2, 3]) (empty_modulebase (0 :: nat)))) = 1
   \<and> unat (line_size_f (data (hd (message_queue
         (queue_message \<lparr>module = 1, conn = NULL\<rparr> NULL (Some huge_msg) 3
            (Some [1, 2, 3]) (empty_modulebase (0 :: nat))))))) = 2
   \<and> unat (line_size_f huge_msg) + length [1 :: byte, 2, 3] = 4294967298
   \<and> unat (line_size_f (data (hd (message_queue
         (queue_message \<lparr>module = 1, conn = NULL\<rparr> NULL (Some huge_msg) 3
            (Some [1, 2, 3]) (empty_modulebase (0 :: nat)))))))
       \<noteq> unat (line_size_f huge_msg) + length [1 :: byte, 2, 3]"
  by (simp add: queue_message_def malloc_def empty_modulebase_def huge_msg_def huge_trailer_def
        sizeof_dsmemsg_generic_t_def g_slist_append_def Let_def)

text \<open>
  C8, amended. When the message is not rejected and both allocations succeed,
  \<open>queue_message\<close> appends to the queue one envelope with the given sender and recipient,
  which owns the newly allocated buffer; that copy holds, behind the header, the bytes of
  the message up to its \<open>line_size_\<close> and then the \<open>extra_size\<close> extra bytes; the copy's
  \<open>line_size_\<close> is that of the message plus \<open>extra_size\<close> modulo \<open>2^32\<close>, so the sum
  itself when it is below \<open>2^32\<close>; its \<open>size_\<close> and type identifier are those of the
  message; and the producer's message, as every buffer other than the new one, is in
  memory as it was. The message and the extra bytes are taken to hold as many bytes as
  the call says, and the buffer that \<open>malloc\<close> returns is not the message's.
\<close>

theorem queue_message_appends_copy:
  assumes "msg \<noteq> NULL" and "buf \<noteq> msg"
    and "sizeof_dsmemsg_generic_t \<le> unat (line_size_f (mem msg))"
    and "fst (malloc s)" and "fst (malloc (snd (malloc s)))"
    and "unat (line_size_f (mem msg)) \<le> sizeof_dsmemsg_generic_t + length (trailer (mem msg))"
    and "n \<le> length e"
  shows "\<exists>copy.
     message_queue (queue_message sender to (Some (mem msg)) n (Some e) s)
       = message_queue s @ [\<lparr>from_ep = sender, to_module = to, data = copy\<rparr>]
     \<and> snd (queue_message_mem sender to msg n (Some e) buf mem s)
          = queue_message sender to (Some (mem msg)) n (Some e) s
     \<and> fst (queue_message_mem sender to msg n (Some e) buf mem s) buf = copy
     \<and> fst (queue_message_mem sender to msg n (Some e) buf mem s) msg = mem msg
     \<and> (\<forall>a. a \<noteq> buf \<longrightarrow> fst (queue_message_mem sender to msg n (Some e) buf mem s) a = mem a)
     \<and> take (unat (line_size_f (mem msg)) - sizeof_dsmemsg_generic_t) (trailer copy)
          = take (unat (line_size_f (mem msg)) - sizeof_dsmemsg_generic_t) (trailer (mem msg))
     \<and> drop (unat (line_size_f (mem msg)) - sizeof_dsmemsg_generic_t) (trailer copy) = take n e
     \<and> length (trailer copy) = unat (line_size_f (mem msg)) - sizeof_dsmemsg_generic_t + n
     \<and> line_size_f copy = line_size_f (mem msg) + of_nat n
     \<and> unat (line_size_f copy) = (unat (line_size_f (mem msg)) + n) mod 2 ^ 32
     \<and> (unat (line_size_f (mem msg)) + n < 2 ^ 32
          \<longrightarrow> unat (line_size_f copy) = unat (line_size_f (mem msg)) + n)
     \<and> size_f copy = size_f (mem msg) \<and> type_f copy = type_f (mem msg)"
proof -
  let ?m = "mem msg"
  let ?k = "unat (line_size_f ?m) - sizeof_dsmemsg_generic_t"
  let ?copy = "?m\<lparr>trailer := take ?k (trailer ?m) @ take n e,
                  line_size_f := line_size_f ?m + of_nat n\<rparr>"
  have len: "length (take ?k (trailer ?m)) = ?k" using assms(3,6) by simp
  have q: "message_queue (queue_message sender to (Some ?m) n (Some e) s)
       = message_queue s @ [\<lparr>from_ep = sender, to_module = to, data = ?copy\<rparr>]"
    using assms(3,4,5)
    by (simp add: queue_message_def case_prod_beta Let_def snd_malloc g_slist_append_def)
  have r: "snd (queue_message_mem sender to msg n (Some e) buf mem s)
          = queue_message sender to (Some ?m) n (Some e) s"
    using assms(1) by (simp add: queue_message_mem_refines)
  have m: "fst (queue_message_mem sender to msg n (Some e) buf mem s) = mem(buf := ?copy)"
    using assms(1,3,4,5)
    by (simp add: queue_message_mem_def case_prod_beta Let_def)
  have md: "unat (line_size_f ?m + of_nat n) = (unat (line_size_f ?m) + n) mod 2 ^ 32"
    by (simp add: unat_word_ariths unat_of_nat mod_add_right_eq)
  show ?thesis
    apply (rule exI [of _ ?copy])
    using q r len assms(2,7) md by (simp add: m)
qed

theorem queue_message_appends_copy_witness:
  "(500 :: nat) \<noteq> NULL \<and> (600 :: nat) \<noteq> 500
   \<and> fst (malloc demo_loaded) \<and> fst (malloc (snd (malloc demo_loaded)))
   \<and> (\<exists>copy. message_queue (queue_message \<lparr>module = 1, conn = NULL\<rparr> 2 (Some (demo_msg 0x20)) 3
                    (Some [1, 2, 3]) demo_loaded)
              = [\<lparr>from_ep = \<lparr>module = 1, conn = NULL\<rparr>, to_module = 2, data = copy\<rparr>]
        \<and> fst (queue_message_mem \<lparr>module = 1, conn = NULL\<rparr> 2 500 3 (Some [1, 2, 3]) 600
                 ((\<lambda>_ :: nat. demo_msg 0)(500 := demo_msg 0x20)) demo_loaded) 600 = copy
        \<and> fst (queue_message_mem \<lparr>module = 1, conn = NULL\<rparr> 2 500 3 (Some [1, 2, 3]) 600
                 ((\<lambda>_ :: nat. demo_msg 0)(500 := demo_msg 0x20)) demo_loaded) 500 = demo_msg 0x20
        \<and> trailer copy = [1, 2, 3] \<and> unat (line_size_f copy) = 15
        \<and> size_f copy = 12 \<and> type_f copy = 0x20)"
proof -
  let ?mem = "(\<lambda>_ :: nat. demo_msg 0)(500 := demo_msg 0x20)"
  have h: "(500 :: nat) \<noteq> NULL" "(600 :: nat) \<noteq> 500"
    "sizeof_dsmemsg_generic_t \<le> unat (line_size_f (?mem 500))"
    "fst (malloc demo_loaded)" "fst (malloc (snd (malloc demo_loaded)))"
    "unat (line_size_f (?mem 500)) \<le> sizeof_dsmemsg_generic_t + length (trailer (?mem 500))"
    "3 \<le> length [1 :: byte, 2, 3]"
    by (simp_all add: demo_msg_def sizeof_dsmemsg_generic_t_def malloc_def demo_loaded_eq)
  from queue_message_appends_copy
         [where msg = 500 and buf = 600 and mem = ?mem and s = demo_loaded and n = 3
            and e = "[1, 2, 3]" and sender = "\<lparr>module = 1, conn = NULL\<rparr>" and to = 2, OF h]
  obtain copy where c:
    "message_queue (queue_message \<lparr>module = 1, conn = NULL\<rparr> 2 (Some (?mem 500)) 3
         (Some [1, 2, 3]) demo_loaded)
       = message_queue demo_loaded
           @ [\<lparr>from_ep = \<lparr>module = 1, conn = NULL\<rparr>, to_module = 2, data = copy\<rparr>]
     \<and> fst (queue_message_mem \<lparr>module = 1, conn = NULL\<rparr> 2 500 3 (Some [1, 2, 3]) 600
              ?mem demo_loaded) 600 = copy
     \<and> fst (queue_message_mem \<lparr>module = 1, conn = NULL\<rparr> 2 500 3 (Some [1, 2, 3]) 600
              ?mem demo_loaded) 500 = ?mem 500
     \<and> drop (unat (line_size_f (?mem 500)) - sizeof_dsmemsg_generic_t) (trailer copy)
          = take 3 [1, 2, 3]
     \<and> unat (line_size_f copy) = (unat (line_size_f (?mem 500)) + 3) mod 2 ^ 32
     \<and> size_f copy = size_f (?mem 500) \<and> type_f copy = type_f (?mem 500)"
    by blast
  then have
    "message_queue (queue_message \<lparr>module = 1, conn = NULL\<rparr> 2 (Some (demo_msg 0x20)) 3
         (Some [1, 2, 3]) demo_loaded)
       = [\<lparr>from_ep = \<lparr>module = 1, conn = NULL\<rparr>, to_module = 2, data = copy\<rparr>]
     \<and> fst (queue_message_mem \<lparr>module = 1, conn = NULL\<rparr> 2 500 3 (Some [1, 2, 3]) 600
              ?mem demo_loaded) 600 = copy
     \<and> fst (queue_message_mem \<lparr>module = 1, conn = NULL\<rparr> 2 500 3 (Some [1, 2, 3]) 600
              ?mem demo_loaded) 500 = demo_msg 0x20
     \<and> trailer copy = [1, 2, 3] \<and> unat (line_size_f copy) = 15
     \<and> size_f copy = 12 \<and> type_f copy = 0x20"
    by (simp add: demo_msg_def sizeof_dsmemsg_generic_t_def demo_loaded_eq)
  with h show ?thesis by blast
qed

subsection \<open>Loading\<close>

lemma insert_sorted_filter:
  "\<not> P d \<Longrightarrow> filter P (g_slist_insert_sorted_with_data xs d f u) = filter P xs"
  by (induction xs) auto

lemma add_single_handler_snd:
  "\<exists>cbs. snd (add_single_handler mtype msize cb own s) = s\<lparr>callbacks := cbs, oom := tl (oom s)\<rparr>
     \<and> filter (\<lambda>h. owner h \<noteq> own) cbs = filter (\<lambda>h. owner h \<noteq> own) (callbacks s)"
proof (cases "fst (malloc s)")
  case True
  then show ?thesis
    by (intro exI [of _ "g_slist_insert_sorted_with_data (callbacks s)
                   \<lparr>msg_type = mtype, msg_size = msize, callback = cb, owner = own\<rparr>
                   (sort_comparator (module_mem s)) NULL"])
       (simp add: add_single_handler_def case_prod_beta snd_malloc insert_sorted_filter)
next
  case False
  then show ?thesis
    by (intro exI [of _ "callbacks s"])
       (simp add: add_single_handler_def case_prod_beta snd_malloc)
qed

lemma add_msghandlers_loop_snd:
  "\<exists>cbs om. snd (add_msghandlers_loop table m s) = s\<lparr>callbacks := cbs, oom := om\<rparr>
     \<and> filter (\<lambda>h. owner h \<noteq> m) cbs = filter (\<lambda>h. owner h \<noteq> m) (callbacks s)"
proof (induction table arbitrary: s)
  case Nil
  show ?case by (intro exI [of _ "callbacks s"] exI [of _ "oom s"]) simp
next
  case (Cons e es)
  show ?case
  proof (cases "callback e = NULL")
    case True
    then show ?thesis by (intro exI [of _ "callbacks s"] exI [of _ "oom s"]) simp
  next
    case False
    obtain cbs where 1: "snd (add_single_handler (msg_type e) (msg_size e) (callback e) m s)
         = s\<lparr>callbacks := cbs, oom := tl (oom s)\<rparr>"
      and f1: "filter (\<lambda>h. owner h \<noteq> m) cbs = filter (\<lambda>h. owner h \<noteq> m) (callbacks s)"
      using add_single_handler_snd by blast
    let ?s1 = "s\<lparr>callbacks := cbs, oom := tl (oom s)\<rparr>"
    show ?thesis
    proof (cases "fst (add_single_handler (msg_type e) (msg_size e) (callback e) m s) \<noteq> 0")
      case True
      with False 1 f1 show ?thesis
        by (intro exI [of _ cbs] exI [of _ "tl (oom s)"]) (simp add: case_prod_beta)
    next
      case ok: False
      obtain cbs2 om2 where 2: "snd (add_msghandlers_loop es m ?s1) = ?s1\<lparr>callbacks := cbs2, oom := om2\<rparr>"
        and f2: "filter (\<lambda>h. owner h \<noteq> m) cbs2 = filter (\<lambda>h. owner h \<noteq> m) (callbacks ?s1)"
        using Cons.IH [of ?s1] by blast
      from False ok 1 2 f1 f2 show ?thesis
        by (intro exI [of _ cbs2] exI [of _ om2]) (simp add: case_prod_beta)
    qed
  qed
qed

lemma add_msghandlers_snd:
  "\<exists>cbs om. snd (add_msghandlers env m s) = s\<lparr>callbacks := cbs, oom := om\<rparr>
     \<and> filter (\<lambda>h. owner h \<noteq> m) cbs = filter (\<lambda>h. owner h \<noteq> m) (callbacks s)"
proof (cases "m \<noteq> NULL \<and> sym_message_handlers env (handle (module_mem s m)) \<noteq> None")
  case True
  then show ?thesis using add_msghandlers_loop_snd [of _ m s]
    by (auto simp: add_msghandlers_def)
next
  case False
  then show ?thesis
    by (intro exI [of _ "callbacks s"] exI [of _ "oom s"]) (auto simp: add_msghandlers_def)
qed

lemma call_init_evolves: "evolves s (call_init env m dlhandle s)"
proof (cases "sym_module_init env dlhandle")
  case None
  then show ?thesis by (simp add: call_init_def evolves_refl)
next
  case (Some initfunc)
  let ?s1 = "s\<lparr>currently_handling_module := m\<rparr>"
  let ?r = "initfunc m (world ?s1)"
  let ?s2 = "run_calls (fst ?r) (?s1\<lparr>world := snd ?r\<rparr>)"
  have "evolves s ?s1" by (rule evolves_chm)
  also have "evolves ?s1 (?s1\<lparr>world := snd ?r\<rparr>)" by (rule evolves_world)
  also have "evolves (?s1\<lparr>world := snd ?r\<rparr>) ?s2" by (rule sends_evolves [OF run_calls_sends])
  also have "evolves ?s2 (?s2\<lparr>currently_handling_module := NULL\<rparr>)" by (rule evolves_chm)
  finally show ?thesis using Some by (simp add: call_init_def Let_def case_prod_beta)
qed

lemma dlopen_cases:
  "dlopen env path s = (NULL, s)
   \<or> (dl_open env path \<noteq> NULL
       \<and> dlopen env path s = (dl_open env path, s\<lparr>opened := dl_open env path # opened s\<rparr>))"
  by (simp add: dlopen_def)

lemma load_module_prepare_Inr:
  assumes "load_module_prepare env filename prio s = Inr (m, dlhandle, s1)"
  shows "m \<noteq> NULL" "dlhandle \<noteq> NULL" "callbacks s1 = callbacks s" "modules s1 = modules s"
    "opened s1 = dlhandle # opened s" "allocated s1 = m # allocated s"
proof -
  let ?first = "(if (case filename of [] \<Rightarrow> True | c # _ \<Rightarrow> c \<noteq> CHR ''/'') then
               (case malloc s of
                  (False, sa) \<Rightarrow> (NULL, sa)
                | (True, sa) \<Rightarrow> dlopen env (''./'' @ filename) sa)
             else (NULL, s))"
  let ?second = "(if fst ?first = NULL then dlopen env filename (snd ?first) else ?first)"
  let ?dl = "fst ?second"
  let ?sb = "snd ?second"
  have sb: "callbacks ?sb = callbacks s" "modules ?sb = modules s" "allocated ?sb = allocated s"
    "?dl \<noteq> NULL \<Longrightarrow> opened ?sb = ?dl # opened s"
    by (auto simp: dlopen_def case_prod_beta snd_malloc split: bool.splits if_splits)
  from assms have dl: "?dl \<noteq> NULL"
    by (auto simp: load_module_prepare_def Let_def case_prod_beta split: if_splits)
  from assms dl have m: "m = fst (malloc_module_t ?sb)" and mn: "m \<noteq> NULL"
    and dlh: "dlhandle = ?dl"
    by (auto simp: load_module_prepare_def Let_def case_prod_beta split: if_splits bool.splits)
  let ?s2 = "snd (malloc_module_t ?sb)"
  from mn m have s2: "?s2 = ?sb\<lparr>oom := tl (oom ?sb), brk := Suc (brk ?sb), allocated := m # allocated ?sb\<rparr>"
    by (auto simp: malloc_module_t_def case_prod_beta snd_malloc split: bool.splits)
  let ?s3 = "?s2\<lparr>module_mem := (module_mem ?s2)
                                 (m := (module_mem ?s2 m)\<lparr>handle := ?dl, priority := prio\<rparr>)\<rparr>"
  let ?s5 = "(snd (malloc ?s3))\<lparr>module_mem := (module_mem (snd (malloc ?s3)))
                                        (m := (module_mem (snd (malloc ?s3)) m)\<lparr>name := Some filename\<rparr>)\<rparr>"
  from assms dl mn m have s1: "s1 = call_init env m ?dl ?s5"
    by (auto simp: load_module_prepare_def Let_def case_prod_beta split: if_splits bool.splits)
  note ev = evolves_fields [OF call_init_evolves [of ?s5 env m ?dl]]
  show "m \<noteq> NULL" by (rule mn)
  show "dlhandle \<noteq> NULL" using dl dlh by simp
  show "callbacks s1 = callbacks s" unfolding s1 ev(1) by (simp add: snd_malloc s2 sb(1))
  show "modules s1 = modules s" unfolding s1 ev(2) by (simp add: snd_malloc s2 sb(2))
  show "opened s1 = dlhandle # opened s" unfolding s1 ev(6) dlh by (simp add: snd_malloc s2 sb(4) [OF dl])
  show "allocated s1 = m # allocated s" unfolding s1 ev(4) by (simp add: snd_malloc s2 sb(3))
qed

text \<open>
  C5. When \<open>load_module\<close> has opened the code, allocated the module and called
  \<open>module_init\<close>, and \<open>add_msghandlers\<close> then fails, \<open>load_module\<close> returns null; the
  handler registry is the one from before the load without registrations owned by the
  module's address, so none of the registrations added for the module stays; the module
  record is no longer allocated; the handle opened by the load is closed again; and the
  module list is as before the load.
\<close>

theorem load_module_rolls_back:
  assumes "load_module_prepare env filename prio s = Inr (m, dlhandle, s1)"
    and "fst (add_msghandlers env m s1) \<noteq> 0"
  shows "fst (load_module env filename prio s) = NULL
    \<and> callbacks (snd (load_module env filename prio s)) = filter (\<lambda>h. owner h \<noteq> m) (callbacks s)
    \<and> m \<notin> set (allocated (snd (load_module env filename prio s)))
    \<and> opened (snd (load_module env filename prio s)) = opened s
    \<and> modules (snd (load_module env filename prio s)) = modules s"
proof -
  note p = load_module_prepare_Inr [OF assms(1)]
  obtain cbs om where a: "snd (add_msghandlers env m s1) = s1\<lparr>callbacks := cbs, oom := om\<rparr>"
    and f: "filter (\<lambda>h. owner h \<noteq> m) cbs = filter (\<lambda>h. owner h \<noteq> m) (callbacks s1)"
    using add_msghandlers_snd by blast
  have l: "load_module env filename prio s = load_module_error m dlhandle (snd (add_msghandlers env m s1))"
    using assms by (simp add: load_module_def load_module_register_def case_prod_beta)
  show ?thesis
    unfolding l a using p f
    by (simp add: load_module_error_def Let_def remove_msghandlers_eq free_module_t_def
          dlclose_def dsme_log_def)
qed

theorem load_module_rolls_back_witness:
  "\<exists>m dlhandle s1.
     load_module_prepare demo_loader ''c.so'' 0 (demo_loaded\<lparr>oom := [False, False, False, False, True]\<rparr>)
       = Inr (m, dlhandle, s1)
     \<and> fst (add_msghandlers demo_loader m s1) \<noteq> 0
     \<and> fst (load_module demo_loader ''c.so'' 0 (demo_loaded\<lparr>oom := [False, False, False, False, True]\<rparr>)) = NULL
     \<and> callbacks (snd (load_module demo_loader ''c.so'' 0 (demo_loaded\<lparr>oom := [False, False, False, False, True]\<rparr>)))
         = callbacks demo_loaded
     \<and> allocated (snd (load_module demo_loader ''c.so'' 0 (demo_loaded\<lparr>oom := [False, False, False, False, True]\<rparr>))) = [2, 1]
     \<and> opened (snd (load_module demo_loader ''c.so'' 0 (demo_loaded\<lparr>oom := [False, False, False, False, True]\<rparr>))) = [200, 100]
     \<and> modules (snd (load_module demo_loader ''c.so'' 0 (demo_loaded\<lparr>oom := [False, False, False, False, True]\<rparr>))) = [1, 2]"
proof -
  let ?s = "demo_loaded\<lparr>oom := [False, False, False, False, True]\<rparr>"
  have "\<exists>s1. load_module_prepare demo_loader ''c.so'' 0 ?s = Inr (3, 300, s1)
     \<and> fst (add_msghandlers demo_loader 3 s1) \<noteq> 0
     \<and> allocated (snd (load_module demo_loader ''c.so'' 0 ?s)) = [2, 1]"
    by (simp add: demo_loaded_eq demo_defs load_defs)
  then obtain s1 where both: "load_module_prepare demo_loader ''c.so'' 0 ?s = Inr (3, 300, s1)
     \<and> fst (add_msghandlers demo_loader 3 s1) \<noteq> 0
     \<and> allocated (snd (load_module demo_loader ''c.so'' 0 ?s)) = [2, 1]" ..
  then have p: "load_module_prepare demo_loader ''c.so'' 0 ?s = Inr (3, 300, s1)"
    and a: "fst (add_msghandlers demo_loader 3 s1) \<noteq> 0" by simp_all
  from load_module_rolls_back [OF p a] have "fst (load_module demo_loader ''c.so'' 0 ?s) = NULL
    \<and> callbacks (snd (load_module demo_loader ''c.so'' 0 ?s)) = callbacks demo_loaded
    \<and> opened (snd (load_module demo_loader ''c.so'' 0 ?s)) = [200, 100]
    \<and> modules (snd (load_module demo_loader ''c.so'' 0 ?s)) = [1, 2]"
    by (simp add: demo_loaded_eq)
  with both show ?thesis by blast
qed

end
